theory Spec2Isabelle
  imports Complex_Main "HOL-Library.AList"
begin

section \<open>JavaScript values\<close>

text \<open>
  A number is a double: a finite value (a rational; every finite double is one), one of
  the two infinities (\<^verbatim>\<open>JSON.parse('1e999')\<close> is \<^verbatim>\<open>Infinity\<close>), negative zero, or NaN
  (which no JSON text gives, but a computed value can be).
\<close>

datatype number = Finite rat | PlusInfinity | MinusInfinity | MinusZero | NaN

text \<open>
  A stored value is untyped: it is whatever \<^verbatim>\<open>JSON.parse\<close> returned. A string is a
  list of code units. An optional member of an in-memory object is a \<open>json option\<close>,
  \<open>None\<close> standing for \<^verbatim>\<open>undefined\<close>.
\<close>

datatype json =
    JNull
  | JBool bool
  | JNum number
  | JStr string
  | JArr "json list"
  | JObj "(string \<times> json) list"

datatype js_error = TypeError

text \<open>
  What the code takes from the runtime: \<^verbatim>\<open>JSON.parse\<close> (\<open>None\<close> when it raises),
  the text of a finite number (\<^verbatim>\<open>Number.prototype.toString\<close>), the parser behind
  \<^verbatim>\<open>new Date(string)\<close> (\<open>None\<close> for NaN), \<^verbatim>\<open>Date.prototype.toISOString\<close>, the
  clock, \<^verbatim>\<open>navigator.userAgent\<close> (\<open>None\<close> when there is no navigator) and the length
  of the text \<^verbatim>\<open>JSON.stringify\<close> produces. Each operation of the store runs without
  suspension, and reads the clock as one instant.
\<close>

record runtime =
  JSON_parse :: "string \<Rightarrow> json option"
  Number_toString :: "rat \<Rightarrow> string"
  Date_parse :: "string \<Rightarrow> int option"
  toISOString :: "int \<Rightarrow> string"
  Date_now :: int
  userAgent :: "string option"
  stringify_length :: "json \<Rightarrow> nat"

text \<open>
  Decimal rendering of a natural number and of an integer: array index keys, and the
  time value in \<^verbatim>\<open>`local_${Date.now()}`\<close>.
\<close>

definition digit_char :: "nat \<Rightarrow> char" where
  "digit_char d = char_of (48 + d)"

function show_nat :: "nat \<Rightarrow> string" where
  "show_nat n = (if n < 10 then [digit_char n] else show_nat (n div 10) @ [digit_char (n mod 10)])"
  by pat_completeness auto
termination
  by (relation "measure id") auto

declare show_nat.simps [simp del]

definition show_int :: "int \<Rightarrow> string" where
  "show_int i = (if i < 0 then CHR ''-'' # show_nat (nat (- i)) else show_nat (nat i))"

text \<open>\<^verbatim>\<open>String(n)\<close> for a number.\<close>

definition number_text :: "runtime \<Rightarrow> number \<Rightarrow> string" where
  "number_text rt n =
     (case n of
        Finite q \<Rightarrow> Number_toString rt q
      | PlusInfinity \<Rightarrow> ''Infinity''
      | MinusInfinity \<Rightarrow> ''-Infinity''
      | MinusZero \<Rightarrow> ''0''
      | NaN \<Rightarrow> ''NaN'')"

text \<open>
  The own enumerable properties of a value, in order: what an object spread copies and
  what a property read consults. An array has its indices as keys, and so has a string
  (each code unit a string of its own). Members inherited from a prototype are not
  modelled; the keys read below are member names of the records and language codes.
\<close>

fun own_props :: "json \<Rightarrow> (string \<times> json) list" where
  "own_props (JObj kvs) = kvs"
| "own_props (JArr xs) = zip (map show_nat [0..<length xs]) xs"
| "own_props (JStr s) = zip (map show_nat [0..<length s]) (map (\<lambda>c. JStr [c]) s)"
| "own_props _ = []"

text \<open>\<^verbatim>\<open>v[k]\<close> on a value that is neither null nor undefined.\<close>

definition get_prop :: "json \<Rightarrow> string \<Rightarrow> json option" where
  "get_prop v k =
     (case v of
        JArr xs \<Rightarrow> if k = ''length'' then Some (JNum (Finite (of_nat (length xs)))) else map_of (own_props v) k
      | JStr s \<Rightarrow> if k = ''length'' then Some (JNum (Finite (of_nat (length s)))) else map_of (own_props v) k
      | _ \<Rightarrow> map_of (own_props v) k)"

text \<open>Truthiness of a possibly undefined value.\<close>

fun truthy :: "json option \<Rightarrow> bool" where
  "truthy None = False"
| "truthy (Some JNull) = False"
| "truthy (Some (JBool b)) = b"
| "truthy (Some (JNum n)) = (n \<noteq> Finite 0 \<and> n \<noteq> MinusZero \<and> n \<noteq> NaN)"
| "truthy (Some (JStr s)) = (s \<noteq> [])"
| "truthy (Some (JArr xs)) = True"
| "truthy (Some (JObj kvs)) = True"

text \<open>\<^verbatim>\<open>a ?? b\<close>: the left operand unless it is null or undefined.\<close>

definition nullish :: "json option \<Rightarrow> bool" where
  "nullish v = (v = None \<or> v = Some JNull)"

definition coalesce :: "json option \<Rightarrow> json \<Rightarrow> json" where
  "coalesce a b = (case a of None \<Rightarrow> b | Some JNull \<Rightarrow> b | Some v \<Rightarrow> v)"

text \<open>\<^verbatim>\<open>o?.[k]\<close>: undefined when \<open>o\<close> is null or undefined.\<close>

definition opt_chain :: "json option \<Rightarrow> string \<Rightarrow> json option" where
  "opt_chain ob k = (case ob of None \<Rightarrow> None | Some JNull \<Rightarrow> None | Some v \<Rightarrow> get_prop v k)"

text \<open>\<^verbatim>\<open>xs.findIndex(p)\<close>, with \<open>None\<close> for \<open>-1\<close>.\<close>

fun findIndex :: "('a \<Rightarrow> bool) \<Rightarrow> 'a list \<Rightarrow> nat option" where
  "findIndex p [] = None"
| "findIndex p (x # xs) =
     (if p x then Some 0 else (case findIndex p xs of None \<Rightarrow> None | Some i \<Rightarrow> Some (Suc i)))"

text \<open>
  \<^verbatim>\<open>String(v)\<close> for a value; \<open>None\<close> is the TypeError raised for an object that has
  an own (hence not callable) \<^verbatim>\<open>toString\<close> member. An array is joined with commas,
  null elements giving the empty string.
\<close>

fun js_String :: "runtime \<Rightarrow> json \<Rightarrow> string option"
  and js_join :: "runtime \<Rightarrow> json list \<Rightarrow> string option"
  and js_join_item :: "runtime \<Rightarrow> json \<Rightarrow> string option" where
  "js_String rt JNull = Some ''null''"
| "js_String rt (JBool b) = Some (if b then ''true'' else ''false'')"
| "js_String rt (JNum n) = Some (number_text rt n)"
| "js_String rt (JStr s) = Some s"
| "js_String rt (JArr xs) = js_join rt xs"
| "js_String rt (JObj kvs) = (if ''toString'' \<in> fst ` set kvs then None else Some ''[object Object]'')"
| "js_join rt [] = Some []"
| "js_join rt [x] = js_join_item rt x"
| "js_join rt (x # y # ys) =
     (case js_join_item rt x of
        None \<Rightarrow> None
      | Some s \<Rightarrow> (case js_join rt (y # ys) of None \<Rightarrow> None | Some r \<Rightarrow> Some (s @ '','' @ r)))"
| "js_join_item rt JNull = Some []"
| "js_join_item rt (JBool b) = js_String rt (JBool b)"
| "js_join_item rt (JNum n) = js_String rt (JNum n)"
| "js_join_item rt (JStr s) = js_String rt (JStr s)"
| "js_join_item rt (JArr xs) = js_join rt xs"
| "js_join_item rt (JObj kvs) = js_String rt (JObj kvs)"

text \<open>\<^verbatim>\<open>xs.map(String)\<close>: raises as soon as one element does.\<close>

fun map_String :: "runtime \<Rightarrow> json list \<Rightarrow> string list option" where
  "map_String rt [] = Some []"
| "map_String rt (x # xs) =
     (case js_String rt x of
        None \<Rightarrow> None
      | Some s \<Rightarrow> (case map_String rt xs of None \<Rightarrow> None | Some r \<Rightarrow> Some (s # r)))"

text \<open>
  What \<^verbatim>\<open>JSON.parse(JSON.stringify(v))\<close> is for a value \<open>v\<close> held in memory: a number
  that is not finite is written as null, negative zero as 0, everything else as it is.
\<close>

fun written :: "json \<Rightarrow> json" where
  "written (JNum n) = (case n of Finite q \<Rightarrow> JNum (Finite q) | MinusZero \<Rightarrow> JNum (Finite 0) | _ \<Rightarrow> JNull)"
| "written (JArr xs) = JArr (map written xs)"
| "written (JObj kvs) = JObj (map (\<lambda>(k, v). (k, written v)) kvs)"
| "written v = v"

section \<open>Data model (chatStorage.ts)\<close>

datatype role = User | Assistant | System

text \<open>A \<^verbatim>\<open>Date\<close> object holds a time value in milliseconds, or NaN (an invalid date).\<close>

datatype date = Date int | InvalidDate

record ChatMessage =
  msg_id :: string
  msg_type :: role
  original :: string
  msg_translations :: "json option"
  timestamp :: date
  weatherData :: "json option"
  sources :: "json option"

text \<open>
  \<open>userId\<close> is undefined in the record \<^verbatim>\<open>autoSaveChat\<close> builds, and null or a string
  in a decoded one. In \<open>city\<close> and \<open>lastSyncedAt\<close>, which every record the code builds
  does have, \<open>None\<close> stands for null.
\<close>

record ChatRecord =
  chat_id :: string
  userId :: "json option"
  title :: string
  snippet :: string
  city :: "string option"
  messages :: "ChatMessage list"
  meta :: json
  createdAt :: date
  updatedAt :: date
  lastSyncedAt :: "date option"
  synced :: bool
  unsyncedOps :: "json option"

section \<open>Display resolver (getMessageText)\<close>

text \<open>
  \<^verbatim>\<open>m.translations?.[language] ?? m.original ?? ''\<close>. The field \<open>original\<close> is a
  string in every message the decoder or the application builds, so the last operand is
  never reached.
\<close>

definition getMessageText :: "ChatMessage \<Rightarrow> string \<Rightarrow> json" where
  "getMessageText m language = coalesce (opt_chain (msg_translations m) language) (JStr (original m))"

section \<open>Writing a translation into the message list\<close>

text \<open>
  \<^verbatim>\<open>{ ...(m.translations || {}), [language]: v }\<close>. A key whose value is undefined reads as
  an absent key everywhere below (property read, truthiness, \<^verbatim>\<open>JSON.stringify\<close>), so
  storing undefined is modelled as removing the key.
\<close>

definition spread_or_empty :: "json option \<Rightarrow> (string \<times> json) list" where
  "spread_or_empty t = (if truthy t then (case t of Some v \<Rightarrow> own_props v | None \<Rightarrow> []) else [])"

definition with_translation :: "string \<Rightarrow> json option \<Rightarrow> ChatMessage \<Rightarrow> ChatMessage" where
  "with_translation language v m =
     m\<lparr>msg_translations := Some (JObj (case v of
           Some x \<Rightarrow> AList.update language x (spread_or_empty (msg_translations m))
         | None \<Rightarrow> AList.delete language (spread_or_empty (msg_translations m))))\<rparr>"

text \<open>
  The state update of a finished on-demand call (ensureTranslation, line 260).
  \<open>translated\<close> is what \<^verbatim>\<open>translateText\<close> returned: a string when the proxy keeps
  to its contract, any truthy value of the body's \<^verbatim>\<open>text\<close> member otherwise.
\<close>

definition apply_translation :: "string \<Rightarrow> string \<Rightarrow> json \<Rightarrow> ChatMessage list \<Rightarrow> ChatMessage list" where
  "apply_translation message_id language translated prev =
     map (\<lambda>m. if msg_id m = message_id then with_translation language (Some translated) m else m) prev"

text \<open>\<^verbatim>\<open>results[idx]\<close>: undefined past the end of the array.\<close>

definition at_index :: "string list \<Rightarrow> nat \<Rightarrow> json option" where
  "at_index results idx = (if idx < length results then Some (JStr (results ! idx)) else None)"

text \<open>The state update of a finished batch call (language-change effect, lines 429-435).\<close>

definition apply_batch :: "ChatMessage list \<Rightarrow> string \<Rightarrow> string list \<Rightarrow> ChatMessage list \<Rightarrow> ChatMessage list" where
  "apply_batch batch language results prev =
     map (\<lambda>m. case findIndex (\<lambda>b. msg_id b = msg_id m) batch of
                 Some idx \<Rightarrow> with_translation language (at_index results idx) m
               | None \<Rightarrow> m) prev"

section \<open>Translation collaborator (api.ts)\<close>

text \<open>
  What a \<^verbatim>\<open>fetch('/api/gemini')\<close> can come back with: the fetch rejects; the status is
  not ok, \<open>NotOk e\<close> with \<open>e\<close> the parsed error body, or \<open>None\<close> when the error body
  is not JSON; the status is ok but the body is not JSON, so that \<^verbatim>\<open>response.json()\<close>
  rejects; or the status is ok and the body is JSON, \<open>Body data\<close> with \<open>data\<close> the
  parsed body, whatever it is.
\<close>

datatype api_response =
    FetchRejects
  | NotOk "json option"
  | BodyNotJson
  | Body json

text \<open>
  What the caller of a wrapper catches: the rejection of the fetch, the
  \<^verbatim>\<open>new Error(v)\<close> thrown for a status that is not ok, the SyntaxError of
  \<^verbatim>\<open>response.json()\<close>, or a TypeError raised while the body is read.
\<close>

datatype api_error = NetworkFailure | ApiFailure json | BodySyntaxError | BodyTypeError

text \<open>
  \<^verbatim>\<open>const err = await response.json().catch(() => ({})); throw new Error(err.error || fallback)\<close>:
  reading \<^verbatim>\<open>err.error\<close> raises a TypeError when the error body is null.
\<close>

definition api_failure :: "string \<Rightarrow> json option \<Rightarrow> api_error" where
  "api_failure fallback e =
     (case e of
        None \<Rightarrow> ApiFailure (JStr fallback)
      | Some err \<Rightarrow>
          if err = JNull then BodyTypeError
          else (case get_prop err ''error'' of
                  Some m \<Rightarrow> if truthy (Some m) then ApiFailure m else ApiFailure (JStr fallback)
                | None \<Rightarrow> ApiFailure (JStr fallback)))"

text \<open>
  \<^verbatim>\<open>translateText\<close>: an empty text is answered without any request. Reading
  \<^verbatim>\<open>data.text\<close> raises a TypeError when the body is null; the result is
  \<^verbatim>\<open>data.text || ''\<close>, of whatever type the member is.
\<close>

definition translateText :: "string \<Rightarrow> string \<Rightarrow> api_response \<Rightarrow> api_error + json" where
  "translateText text targetLanguage response =
     (if text = [] then Inr (JStr [])
      else case response of
          FetchRejects \<Rightarrow> Inl NetworkFailure
        | NotOk e \<Rightarrow> Inl (api_failure ''Translation API error'' e)
        | BodyNotJson \<Rightarrow> Inl BodySyntaxError
        | Body data \<Rightarrow>
            if data = JNull then Inl BodyTypeError
            else Inr (case get_prop data ''text'' of
                        Some t \<Rightarrow> if truthy (Some t) then t else JStr []
                      | None \<Rightarrow> JStr []))"

text \<open>
  \<^verbatim>\<open>txt.match(/\[([\s\S]*)\]/)\<close>: the span from the first opening bracket to the last
  closing bracket after it, brackets included.
\<close>

definition bracket_match :: "string \<Rightarrow> string option" where
  "bracket_match txt =
     (case dropWhile (\<lambda>c. c \<noteq> CHR ''['') txt of
        [] \<Rightarrow> None
      | c # body \<Rightarrow>
          if CHR '']'' \<in> set body
          then Some (c # rev (dropWhile (\<lambda>d. d \<noteq> CHR '']'') (rev body)))
          else None)"

text \<open>
  The \<^verbatim>\<open>catch\<close> of \<^verbatim>\<open>batchTranslate\<close>, with \<open>t\<close> the \<^verbatim>\<open>text\<close> member of a body
  that is not null: \<^verbatim>\<open>txt = data.text || ''\<close>; a \<open>txt\<close> that is not a string has no
  \<^verbatim>\<open>match\<close> method, and calling it raises out of the \<^verbatim>\<open>catch\<close>; for a string, the
  bracketed span is parsed, and a failure there is swallowed.
\<close>

definition batch_catch :: "runtime \<Rightarrow> string list \<Rightarrow> json option \<Rightarrow> api_error + string list" where
  "batch_catch rt texts t =
     (case (if truthy t then t else Some (JStr [])) of
        Some (JStr txt) \<Rightarrow>
          (case bracket_match txt of
             None \<Rightarrow> Inr texts
           | Some piece \<Rightarrow>
               (case JSON_parse rt piece of
                  Some (JArr arr) \<Rightarrow> (case map_String rt arr of Some strs \<Rightarrow> Inr strs | None \<Rightarrow> Inr texts)
                | _ \<Rightarrow> Inr texts))
      | _ \<Rightarrow> Inl BodyTypeError)"

text \<open>
  \<^verbatim>\<open>JSON.parse(data.text)\<close>: the argument is converted to a string first, which can
  raise; for a missing member the text is \<^verbatim>\<open>undefined\<close>, which is not JSON.
\<close>

definition parse_text :: "runtime \<Rightarrow> json option \<Rightarrow> json option" where
  "parse_text rt t =
     (case t of
        None \<Rightarrow> None
      | Some v \<Rightarrow> (case js_String rt v of None \<Rightarrow> None | Some s \<Rightarrow> JSON_parse rt s))"

text \<open>
  \<^verbatim>\<open>batchTranslate\<close>. Reading \<^verbatim>\<open>data.text\<close> of a null body raises inside the
  \<^verbatim>\<open>try\<close> and again inside the \<^verbatim>\<open>catch\<close>. The \<^verbatim>\<open>try\<close> covers the parse and the
  conversion of the elements; a parsed value that is not an array falls through to the
  last line, which returns the input texts.
\<close>

definition batchTranslate ::
  "runtime \<Rightarrow> string list \<Rightarrow> string \<Rightarrow> api_response \<Rightarrow> api_error + string list" where
  "batchTranslate rt texts targetLanguage response =
     (if texts = [] then Inr []
      else case response of
          FetchRejects \<Rightarrow> Inl NetworkFailure
        | NotOk e \<Rightarrow> Inl (api_failure ''Batch translation API error'' e)
        | BodyNotJson \<Rightarrow> Inl BodySyntaxError
        | Body data \<Rightarrow>
            if data = JNull then Inl BodyTypeError
            else
              (case parse_text rt (get_prop data ''text'') of
                 Some (JArr parsed) \<Rightarrow>
                   (case map_String rt parsed of
                      Some strs \<Rightarrow> Inr strs
                    | None \<Rightarrow> batch_catch rt texts (get_prop data ''text''))
               | Some other \<Rightarrow> Inr texts
               | None \<Rightarrow> batch_catch rt texts (get_prop data ''text'')))"

section \<open>On-demand translation (MessageItem.ensureTranslation)\<close>

definition MAX_CONCURRENT_TRANSLATIONS :: int where
  "MAX_CONCURRENT_TRANSLATIONS = 3"

text \<open>\<^verbatim>\<open>message.translations && message.translations[language]\<close>, read as a condition.\<close>

definition has_translation :: "ChatMessage \<Rightarrow> string \<Rightarrow> bool" where
  "has_translation m language =
     (truthy (msg_translations m) \<and> truthy (opt_chain (msg_translations m) language))"

text \<open>
  One run of \<^verbatim>\<open>startWhenAllowed\<close> is a task. It holds the message and the language its
  closure captured. It is \<open>Waiting\<close> while it polls for a free slot, \<open>Calling\<close>
  from the moment it has called \<^verbatim>\<open>translateText\<close> until that promise settles, and
  \<open>Finished\<close> afterwards.
\<close>

datatype phase = Waiting | Calling | Finished

record task =
  task_message :: ChatMessage
  task_language :: string
  task_phase :: phase

text \<open>
  The state of the view: the message list (React state), the two refs shared by all
  message items, the tasks, and the log of the requests sent by \<^verbatim>\<open>translateText\<close>
  (text and target language), which the code does not keep and the claims count.
\<close>

record view =
  view_messages :: "ChatMessage list"
  translatingRef :: "string set"
  translatingCountRef :: int
  tasks :: "task list"
  outbound :: "(string \<times> string) list"

definition initial_view :: "ChatMessage list \<Rightarrow> view" where
  "initial_view ms =
     \<lparr>view_messages = ms, translatingRef = {}, translatingCountRef = 0, tasks = [], outbound = []\<rparr>"

text \<open>
  The body of \<^verbatim>\<open>startWhenAllowed\<close> for task \<open>i\<close>, from a test of the loop condition
  up to the next suspension: either it keeps waiting (the timer is set again), or it
  takes a slot, marks the message and sends the request. The message text is not empty
  here (\<^verbatim>\<open>ensureTranslation\<close> returned otherwise), so \<^verbatim>\<open>translateText\<close> does send.
\<close>

definition startWhenAllowed :: "nat \<Rightarrow> view \<Rightarrow> view" where
  "startWhenAllowed i v =
     (if translatingCountRef v \<ge> MAX_CONCURRENT_TRANSLATIONS then v
      else let t = tasks v ! i in
        v\<lparr>translatingCountRef := translatingCountRef v + 1,
          translatingRef := insert (msg_id (task_message t)) (translatingRef v),
          tasks := (tasks v)[i := t\<lparr>task_phase := Calling\<rparr>],
          outbound := outbound v @ [(original (task_message t), task_language t)]\<rparr>)"

definition ensureTranslation :: "ChatMessage \<Rightarrow> string \<Rightarrow> view \<Rightarrow> view" where
  "ensureTranslation message language v =
     (if original message = [] then v
      else if has_translation message language then v
      else if msg_id message \<in> translatingRef v then v
      else startWhenAllowed (length (tasks v))
             (v\<lparr>tasks := tasks v @
                  [\<lparr>task_message = message, task_language = language, task_phase = Waiting\<rparr>]\<rparr>))"

text \<open>The effect of a message item (lines 273-280), run on mount and on a language change.\<close>

definition translation_effect :: "ChatMessage \<Rightarrow> string \<Rightarrow> view \<Rightarrow> view" where
  "translation_effect message language v =
     (if msg_type message = Assistant \<or> msg_type message = System then
        (if \<not> truthy (msg_translations message) \<or> \<not> truthy (opt_chain (msg_translations message) language)
         then ensureTranslation message language v else v)
      else v)"

text \<open>The timer of a waiting task fires: the loop condition is tested again.\<close>

definition wake :: "nat \<Rightarrow> view \<Rightarrow> view" where
  "wake i v =
     (if i < length (tasks v) \<and> task_phase (tasks v ! i) = Waiting then startWhenAllowed i v else v)"

text \<open>
  The request of task \<open>i\<close> comes back: the \<^verbatim>\<open>try\<close> writes the translation on success,
  the \<^verbatim>\<open>catch\<close> only logs, the \<^verbatim>\<open>finally\<close> gives the slot back and removes the mark.
\<close>

definition settle :: "nat \<Rightarrow> api_response \<Rightarrow> view \<Rightarrow> view" where
  "settle i response v =
     (if i < length (tasks v) \<and> task_phase (tasks v ! i) = Calling then
        let t = tasks v ! i;
            message = task_message t;
            v1 = (case translateText (original message) (task_language t) response of
                    Inr translated \<Rightarrow>
                      v\<lparr>view_messages :=
                          apply_translation (msg_id message) (task_language t) translated (view_messages v)\<rparr>
                  | Inl err \<Rightarrow> v)
        in v1\<lparr>translatingCountRef := translatingCountRef v1 - 1,
              translatingRef := translatingRef v1 - {msg_id message},
              tasks := (tasks v1)[i := t\<lparr>task_phase := Finished\<rparr>]\<rparr>
      else v)"

text \<open>
  What can happen to the view, one event at a time (the code runs on one thread and is
  interleaved only at its suspension points): a message item calls
  \<^verbatim>\<open>ensureTranslation\<close>, its effect runs, a timer fires, a request settles, or other
  code replaces the message list.
\<close>

datatype event =
    Invoke ChatMessage string
  | Effect ChatMessage string
  | Wake nat
  | Settle nat api_response
  | SetMessages "ChatMessage list"

fun step :: "view \<Rightarrow> event \<Rightarrow> view" where
  "step v (Invoke m language) = ensureTranslation m language v"
| "step v (Effect m language) = translation_effect m language v"
| "step v (Wake i) = wake i v"
| "step v (Settle i response) = settle i response v"
| "step v (SetMessages ms) = v\<lparr>view_messages := ms\<rparr>"

definition run :: "view \<Rightarrow> event list \<Rightarrow> view" where
  "run v evs = foldl step v evs"

text \<open>The requests that have been sent and have not settled.\<close>

definition pending_calls :: "view \<Rightarrow> nat" where
  "pending_calls v = length (filter (\<lambda>t. task_phase t = Calling) (tasks v))"

section \<open>Batch translation (language-change effect)\<close>

definition BATCH :: nat where
  "BATCH = 8"

definition needs_translation :: "string \<Rightarrow> ChatMessage \<Rightarrow> bool" where
  "needs_translation language m =
     (original m \<noteq> [] \<and>
      (\<not> truthy (msg_translations m) \<or> \<not> truthy (opt_chain (msg_translations m) language)) \<and>
      msg_type m \<noteq> User)"

text \<open>
  The loop over the groups. \<open>api k\<close> is the response to the \<open>k\<close>-th request. The state
  is the log of the requests sent (the texts of each) and the message list; a request
  that raises is logged by the code and skipped.
\<close>

function batch_loop ::
  "runtime \<Rightarrow> (nat \<Rightarrow> api_response) \<Rightarrow> string \<Rightarrow> ChatMessage list \<Rightarrow> nat \<Rightarrow>
   string list list \<times> ChatMessage list \<Rightarrow> string list list \<times> ChatMessage list" where
  "batch_loop rt api language toTranslate i (calls, msgs) =
     (if i < length toTranslate then
        let batch = take BATCH (drop i toTranslate);
            texts = map original batch;
            calls' = (if texts = [] then calls else calls @ [texts])
        in (case batchTranslate rt texts language (api (length calls)) of
              Inr results \<Rightarrow>
                batch_loop rt api language toTranslate (i + BATCH)
                  (calls', apply_batch batch language results msgs)
            | Inl err \<Rightarrow>
                batch_loop rt api language toTranslate (i + BATCH) (calls', msgs))
      else (calls, msgs))"
  by pat_completeness auto
termination
  by (relation "measure (\<lambda>(p, a, l, toTranslate, i, s). length toTranslate - i)")
     (auto simp: BATCH_def)

declare batch_loop.simps [simp del]

definition batch_translation :: 
  "runtime \<Rightarrow> (nat \<Rightarrow> api_response) \<Rightarrow> string \<Rightarrow> ChatMessage list \<Rightarrow>
   string list list \<times> ChatMessage list" where
  "batch_translation rt api language currentMessages =
     (let toTranslate = filter (needs_translation language) currentMessages
      in if toTranslate = [] then ([], currentMessages)
         else batch_loop rt api language toTranslate 0 ([], currentMessages))"

section \<open>Record codec (loadChatsFromStorage and JSON.stringify)\<close>

definition new_Date :: "runtime \<Rightarrow> string \<Rightarrow> date" where
  "new_Date rt s = (case Date_parse rt s of Some t \<Rightarrow> Date t | None \<Rightarrow> InvalidDate)"

text \<open>\<^verbatim>\<open>typeof v === 'string' ? new Date(v) : new Date()\<close>\<close>

definition date_or_now :: "runtime \<Rightarrow> json option \<Rightarrow> date" where
  "date_or_now rt v = (case v of Some (JStr s) \<Rightarrow> new_Date rt s | _ \<Rightarrow> Date (Date_now rt))"

text \<open>\<^verbatim>\<open>typeof v === 'string' ? v : null\<close>\<close>

definition string_or_null :: "json option \<Rightarrow> string option" where
  "string_or_null v = (case v of Some (JStr s) \<Rightarrow> Some s | _ \<Rightarrow> None)"

text \<open>\<^verbatim>\<open>typeof v === 'object' && v\<close>: an object or an array, not null.\<close>

definition object_or_undefined :: "json option \<Rightarrow> json option" where
  "object_or_undefined v =
     (case v of Some (JObj kvs) \<Rightarrow> Some (JObj kvs) | Some (JArr xs) \<Rightarrow> Some (JArr xs) | _ \<Rightarrow> None)"

text \<open>\<^verbatim>\<open>Array.isArray(v) ? v : undefined\<close>\<close>

definition array_or_undefined :: "json option \<Rightarrow> json option" where
  "array_or_undefined v = (case v of Some (JArr xs) \<Rightarrow> Some (JArr xs) | _ \<Rightarrow> None)"

text \<open>\<^verbatim>\<open>typeof v === 'string' ? v : null\<close>, as a value.\<close>

definition string_or_JNull :: "json option \<Rightarrow> json" where
  "string_or_JNull v = (case v of Some (JStr s) \<Rightarrow> JStr s | _ \<Rightarrow> JNull)"

text \<open>\<^verbatim>\<open>String(v ?? '')\<close>\<close>

definition String_or_empty :: "runtime \<Rightarrow> json option \<Rightarrow> js_error + string" where
  "String_or_empty rt v =
     (case js_String rt (coalesce v (JStr [])) of None \<Rightarrow> Inl TypeError | Some s \<Rightarrow> Inr s)"

text \<open>
  The decoder casts each array element to \<^verbatim>\<open>Record<string, unknown>\<close> and reads its
  members: that raises a TypeError on null and gives undefined on the other primitives.
\<close>

definition role_of :: "json option \<Rightarrow> role" where
  "role_of v =
     (if v = Some (JStr ''user'') then User
      else if v = Some (JStr ''assistant'') then Assistant
      else System)"

text \<open>\<^verbatim>\<open>xs.map(f)\<close> for an \<open>f\<close> that may raise: the first exception ends the map.\<close>

fun map_raising :: "('a \<Rightarrow> js_error + 'b) \<Rightarrow> 'a list \<Rightarrow> js_error + 'b list" where
  "map_raising f [] = Inr []"
| "map_raising f (x # xs) =
     (case f x of
        Inl e \<Rightarrow> Inl e
      | Inr y \<Rightarrow> (case map_raising f xs of Inl e \<Rightarrow> Inl e | Inr ys \<Rightarrow> Inr (y # ys)))"

definition decodeMessage :: "runtime \<Rightarrow> json \<Rightarrow> js_error + ChatMessage" where
  "decodeMessage rt mRaw =
     (if mRaw = JNull then Inl TypeError
      else case String_or_empty rt (get_prop mRaw ''id'') of
          Inl e \<Rightarrow> Inl e
        | Inr i \<Rightarrow>
           (case String_or_empty rt (get_prop mRaw ''original'') of
              Inl e \<Rightarrow> Inl e
            | Inr orig \<Rightarrow>
                Inr \<lparr>msg_id = i,
                     msg_type = role_of (get_prop mRaw ''type''),
                     original = orig,
                     msg_translations = object_or_undefined (get_prop mRaw ''translations''),
                     timestamp = date_or_now rt (get_prop mRaw ''timestamp''),
                     weatherData = object_or_undefined (get_prop mRaw ''weatherData''),
                     sources = array_or_undefined (get_prop mRaw ''sources'')\<rparr>))"

definition decodeChat :: "runtime \<Rightarrow> json \<Rightarrow> js_error + ChatRecord" where
  "decodeChat rt chat =
     (if chat = JNull then Inl TypeError
      else case map_raising (decodeMessage rt)
                  (case get_prop chat ''messages'' of Some (JArr ms) \<Rightarrow> ms | _ \<Rightarrow> []) of
          Inl e \<Rightarrow> Inl e
        | Inr msgs \<Rightarrow>
           (case String_or_empty rt (get_prop chat ''id'') of
              Inl e \<Rightarrow> Inl e
            | Inr i \<Rightarrow>
               (case String_or_empty rt (get_prop chat ''title'') of
                  Inl e \<Rightarrow> Inl e
                | Inr ttl \<Rightarrow>
                   (case String_or_empty rt (get_prop chat ''snippet'') of
                      Inl e \<Rightarrow> Inl e
                    | Inr snip \<Rightarrow>
                        Inr \<lparr>chat_id = i,
                             userId = Some (string_or_JNull (get_prop chat ''userId'')),
                             title = ttl,
                             snippet = snip,
                             city = string_or_null (get_prop chat ''city''),
                             messages = msgs,
                             meta = (case object_or_undefined (get_prop chat ''meta'') of
                                       Some mt \<Rightarrow> mt
                                     | None \<Rightarrow> JObj [(''version'', JNum (Finite 1))]),
                             createdAt = date_or_now rt (get_prop chat ''createdAt''),
                             updatedAt = date_or_now rt (get_prop chat ''updatedAt''),
                             lastSyncedAt = (case get_prop chat ''lastSyncedAt'' of
                                               Some (JStr s) \<Rightarrow> Some (new_Date rt s)
                                             | _ \<Rightarrow> None),
                             synced = truthy (get_prop chat ''synced''),
                             unsyncedOps = array_or_undefined (get_prop chat ''unsyncedOps'')\<rparr>))))"

text \<open>
  The slot \<^verbatim>\<open>aerosense_chats_v1\<close> of localStorage, seen through
  \<^verbatim>\<open>getItem\<close> and \<^verbatim>\<open>JSON.parse\<close>: reading raises, the item is missing or the empty
  string, its text does not parse, or it parses to a value. A value written with
  \<^verbatim>\<open>JSON.stringify\<close> is kept as the tree it parses back to.
\<close>

datatype slot = ReadRaises | NoItem | Unparsable | Stored json

text \<open>
  The browser side: is there a \<^verbatim>\<open>window\<close>, what the slot holds, and whether
  \<^verbatim>\<open>setItem\<close> succeeds (it raises when the quota is exceeded or storage is disabled).
\<close>

record storage =
  has_window :: bool
  chats_slot :: slot
  setItem_ok :: bool

definition decode :: "runtime \<Rightarrow> json \<Rightarrow> js_error + ChatRecord list" where
  "decode rt parsed = (case parsed of JArr entries \<Rightarrow> map_raising (decodeChat rt) entries | _ \<Rightarrow> Inr [])"

definition loadChatsFromStorage :: "runtime \<Rightarrow> storage \<Rightarrow> ChatRecord list" where
  "loadChatsFromStorage rt st =
     (if \<not> has_window st then []
      else case chats_slot st of
          ReadRaises \<Rightarrow> []
        | NoItem \<Rightarrow> []
        | Unparsable \<Rightarrow> []
        | Stored parsed \<Rightarrow> (case decode rt parsed of Inl e \<Rightarrow> [] | Inr chats \<Rightarrow> chats))"

text \<open>
  \<^verbatim>\<open>JSON.stringify\<close> of the in-memory records, as the tree its output parses to. The
  members come in the order in which the decoder and \<^verbatim>\<open>autoSaveChat\<close> write them. A
  valid date becomes its ISO text and an invalid one null (\<^verbatim>\<open>Date.prototype.toJSON\<close>);
  an undefined member is left out; a member passed through is written as \<open>written\<close>
  says.
\<close>

definition date_toJSON :: "runtime \<Rightarrow> date \<Rightarrow> json" where
  "date_toJSON rt d = (case d of Date t \<Rightarrow> JStr (toISOString rt t) | InvalidDate \<Rightarrow> JNull)"

definition optional :: "string \<Rightarrow> json option \<Rightarrow> (string \<times> json) list" where
  "optional k v = (case v of None \<Rightarrow> [] | Some x \<Rightarrow> [(k, written x)])"

definition role_name :: "role \<Rightarrow> string" where
  "role_name r = (case r of User \<Rightarrow> ''user'' | Assistant \<Rightarrow> ''assistant'' | System \<Rightarrow> ''system'')"

definition encodeMessage :: "runtime \<Rightarrow> ChatMessage \<Rightarrow> json" where
  "encodeMessage rt m =
     JObj ([(''id'', JStr (msg_id m)),
            (''type'', JStr (role_name (msg_type m))),
            (''original'', JStr (original m))]
           @ optional ''translations'' (msg_translations m)
           @ [(''timestamp'', date_toJSON rt (timestamp m))]
           @ optional ''weatherData'' (weatherData m)
           @ optional ''sources'' (sources m))"

definition nullable_string :: "string option \<Rightarrow> json" where
  "nullable_string v = (case v of Some s \<Rightarrow> JStr s | None \<Rightarrow> JNull)"

definition encodeChat :: "runtime \<Rightarrow> ChatRecord \<Rightarrow> json" where
  "encodeChat rt c =
     JObj ([(''id'', JStr (chat_id c))]
           @ optional ''userId'' (userId c)
           @ [(''title'', JStr (title c)),
              (''snippet'', JStr (snippet c)),
              (''city'', nullable_string (city c)),
              (''messages'', JArr (map (encodeMessage rt) (messages c))),
              (''meta'', written (meta c)),
              (''createdAt'', date_toJSON rt (createdAt c)),
              (''updatedAt'', date_toJSON rt (updatedAt c)),
              (''lastSyncedAt'', (case lastSyncedAt c of Some d \<Rightarrow> date_toJSON rt d | None \<Rightarrow> JNull)),
              (''synced'', JBool (synced c))]
           @ optional ''unsyncedOps'' (unsyncedOps c))"

definition encode :: "runtime \<Rightarrow> ChatRecord list \<Rightarrow> json" where
  "encode rt chats = JArr (map (encodeChat rt) chats)"

section \<open>Conversation store (chatStorage.ts)\<close>

definition MAX_MESSAGE_SIZE :: nat where
  "MAX_MESSAGE_SIZE = 500000"

definition getChatTitle :: "ChatMessage list \<Rightarrow> string" where
  "getChatTitle msgs =
     (case filter (\<lambda>m. msg_type m = User) msgs of
        [] \<Rightarrow> ''Untitled Chat''
      | u # rest \<Rightarrow> take 50 (original u) @ (if length (original u) > 50 then ''...'' else []))"

definition getChatSnippet :: "ChatMessage list \<Rightarrow> string" where
  "getChatSnippet msgs =
     (case (case find (\<lambda>m. msg_type m = Assistant) msgs of
              Some a \<Rightarrow> Some a
            | None \<Rightarrow> find (\<lambda>m. msg_type m = User) msgs) of
        None \<Rightarrow> ''Empty chat''
      | Some source \<Rightarrow> take 70 (original source) @ (if length (original source) > 70 then ''...'' else []))"

text \<open>The city of the first message that carries weather data with a string \<^verbatim>\<open>city\<close>.\<close>

definition cityMatch :: "ChatMessage list \<Rightarrow> string option" where
  "cityMatch msgs =
     (case find (\<lambda>m. truthy (weatherData m) \<and>
                      (case opt_chain (weatherData m) ''city'' of Some (JStr s) \<Rightarrow> True | _ \<Rightarrow> False)) msgs of
        None \<Rightarrow> None
      | Some found \<Rightarrow> string_or_null (opt_chain (weatherData found) ''city''))"

text \<open>
  \<^verbatim>\<open>autoSaveChat\<close> returns the list and leaves the storage changed. The \<^verbatim>\<open>catch\<close>
  is reached when \<^verbatim>\<open>setItem\<close> raises; it returns what storage still holds.
\<close>

definition autoSaveChat :: "runtime \<Rightarrow> storage \<Rightarrow> ChatMessage list \<Rightarrow> ChatRecord list \<times> storage" where
  "autoSaveChat rt st msgs =
     (if \<not> has_window st then ([], st)
      else if filter (\<lambda>m. msg_type m = User) msgs = [] then (loadChatsFromStorage rt st, st)
      else
        let chats = loadChatsFromStorage rt st;
            chatTitle = getChatTitle msgs;
            chatSnippet = getChatSnippet msgs;
            existingIndex = findIndex (\<lambda>c. title c = chatTitle) chats;
            messageSize = stringify_length rt (JArr (map (encodeMessage rt) msgs));
            isTruncated = (messageSize > MAX_MESSAGE_SIZE);
            chatRecord =
              \<lparr>chat_id = (case existingIndex of
                            Some i \<Rightarrow> chat_id (chats ! i)
                          | None \<Rightarrow> ''local_'' @ show_int (Date_now rt)),
               userId = None,
               title = chatTitle,
               snippet = chatSnippet,
               city = cityMatch msgs,
               messages = msgs,
               meta = JObj [(''device'', JStr (case userAgent rt of Some ua \<Rightarrow> take 50 ua | None \<Rightarrow> ''unknown'')),
                            (''version'', JNum (Finite 1)),
                            (''truncated'', JBool isTruncated)],
               createdAt = (case existingIndex of
                              Some i \<Rightarrow> createdAt (chats ! i)
                            | None \<Rightarrow> Date (Date_now rt)),
               updatedAt = Date (Date_now rt),
               lastSyncedAt = None,
               synced = False,
               unsyncedOps = None\<rparr>;
            updated = (case existingIndex of
                         Some i \<Rightarrow> chats[i := chatRecord]
                       | None \<Rightarrow> chatRecord # chats)
        in if setItem_ok st then (updated, st\<lparr>chats_slot := Stored (encode rt updated)\<rparr>)
           else (loadChatsFromStorage rt st, st))"

definition deleteChat :: "runtime \<Rightarrow> storage \<Rightarrow> string \<Rightarrow> ChatRecord list \<times> storage" where
  "deleteChat rt st chatId =
     (if \<not> has_window st then ([], st)
      else
        let chats = loadChatsFromStorage rt st;
            updated = filter (\<lambda>c. chat_id c \<noteq> chatId) chats
        in if setItem_ok st then (updated, st\<lparr>chats_slot := Stored (encode rt updated)\<rparr>)
           else (loadChatsFromStorage rt st, st))"

definition renameChat :: "runtime \<Rightarrow> storage \<Rightarrow> string \<Rightarrow> string \<Rightarrow> ChatRecord option \<times> storage" where
  "renameChat rt st chatId newTitle =
     (if \<not> has_window st then (None, st)
      else
        let chats = loadChatsFromStorage rt st
        in case findIndex (\<lambda>c. chat_id c = chatId) chats of
             None \<Rightarrow> (None, st)
           | Some index \<Rightarrow>
               let updated = chats[index := (chats ! index)\<lparr>title := newTitle, updatedAt := Date (Date_now rt)\<rparr>]
               in if setItem_ok st then (Some (updated ! index), st\<lparr>chats_slot := Stored (encode rt updated)\<rparr>)
                  else (None, st))"

section \<open>Notions used in the statements\<close>

text \<open>
  The two refs agree with the tasks: the counter is the number of requests that have
  not settled, and it does not exceed the bound.
\<close>

definition slots_ok :: "view \<Rightarrow> bool" where
  "slots_ok v = (translatingCountRef v = int (pending_calls v) \<and>
                 translatingCountRef v \<le> MAX_CONCURRENT_TRANSLATIONS)"

text \<open>
  The partition of a list into consecutive groups of \<open>n\<close> elements, the last one
  possibly shorter (spec 4.3: fixed-size groups, in order).
\<close>

function groups_of :: "nat \<Rightarrow> 'a list \<Rightarrow> 'a list list" where
  "groups_of n xs = (if n = 0 \<or> xs = [] then [] else take n xs # groups_of n (drop n xs))"
  by pat_completeness auto
termination
  by (relation "measure (\<lambda>(n, xs). length xs)") auto

declare groups_of.simps [simp del]

text \<open>
  What the batch flow is to do with the groups (spec 4.3): one request per group, in
  order, the \<open>k\<close>-th request answered by \<open>api k\<close>; the results of a successful
  response are written by \<open>apply_batch\<close> with that group; a failed request is skipped.
\<close>

fun apply_groups ::
  "runtime \<Rightarrow> (nat \<Rightarrow> api_response) \<Rightarrow> string \<Rightarrow> nat \<Rightarrow> ChatMessage list list \<Rightarrow>
   ChatMessage list \<Rightarrow> ChatMessage list" where
  "apply_groups rt api language k [] msgs = msgs"
| "apply_groups rt api language k (batch # rest) msgs =
     apply_groups rt api language (Suc k) rest
       (case batchTranslate rt (map original batch) language (api k) of
          Inr results \<Rightarrow> apply_batch batch language results msgs
        | Inl err \<Rightarrow> msgs)"



text \<open>Every number in a value is finite, and none is negative zero.\<close>

fun finite_numbers :: "json \<Rightarrow> bool" where
  "finite_numbers (JNum n) = (case n of Finite q \<Rightarrow> True | _ \<Rightarrow> False)"
| "finite_numbers (JArr xs) = list_all finite_numbers xs"
| "finite_numbers (JObj kvs) = list_all (\<lambda>(k, v). finite_numbers v) kvs"
| "finite_numbers v = True"

definition finite_member :: "json option \<Rightarrow> bool" where
  "finite_member v = (case v of None \<Rightarrow> True | Some x \<Rightarrow> finite_numbers x)"

text \<open>
  A date survives the codec when it is valid and the runtime reads back the ISO text it
  writes for it (ECMAScript guarantees the latter for every valid date). A message or a
  conversation survives when its dates do and the numbers in the members that are passed
  through are finite and not negative zero.
\<close>

definition date_survives :: "runtime \<Rightarrow> date \<Rightarrow> bool" where
  "date_survives rt d =
     (case d of Date t \<Rightarrow> Date_parse rt (toISOString rt t) = Some t | InvalidDate \<Rightarrow> False)"

definition message_survives :: "runtime \<Rightarrow> ChatMessage \<Rightarrow> bool" where
  "message_survives rt m =
     (date_survives rt (timestamp m) \<and> finite_member (msg_translations m) \<and>
      finite_member (weatherData m) \<and> finite_member (sources m))"

definition chat_survives :: "runtime \<Rightarrow> ChatRecord \<Rightarrow> bool" where
  "chat_survives rt c =
     (date_survives rt (createdAt c) \<and> date_survives rt (updatedAt c) \<and>
      (case lastSyncedAt c of None \<Rightarrow> True | Some d \<Rightarrow> date_survives rt d) \<and>
      finite_numbers (meta c) \<and> finite_member (unsyncedOps c) \<and>
      list_all (message_survives rt) (messages c))"

text \<open>The shape the decoder gives to the members it passes through unread.\<close>

definition shaped_message :: "ChatMessage \<Rightarrow> bool" where
  "shaped_message m =
     (object_or_undefined (msg_translations m) = msg_translations m \<and>
      object_or_undefined (weatherData m) = weatherData m \<and>
      array_or_undefined (sources m) = sources m)"

definition shaped_chat :: "ChatRecord \<Rightarrow> bool" where
  "shaped_chat c =
     (userId c = Some (string_or_JNull (userId c)) \<and>
      object_or_undefined (Some (meta c)) = Some (meta c) \<and>
      array_or_undefined (unsyncedOps c) = unsyncedOps c \<and>
      list_all shaped_message (messages c))"

section \<open>Concrete inputs\<close>

text \<open>A message as the application appends it, before any translation is cached.\<close>

definition plain_message :: "string \<Rightarrow> role \<Rightarrow> string \<Rightarrow> ChatMessage" where
  "plain_message i r txt =
     \<lparr>msg_id = i, msg_type = r, original = txt, msg_translations = None,
      timestamp = Date 1714557600000, weatherData = None, sources = None\<rparr>"

definition ten_messages :: "ChatMessage list" where
  "ten_messages = map (\<lambda>k. plain_message (show_nat k) Assistant (''Forecast '' @ show_nat k)) [1..<11]"

text \<open>Every message item calls \<^verbatim>\<open>ensureTranslation\<close> in the same tick.\<close>

definition invoke_all :: "string \<Rightarrow> ChatMessage list \<Rightarrow> event list" where
  "invoke_all language ms = map (\<lambda>m. Invoke m language) ms"

text \<open>The response the proxy gives when it keeps to its contract: a body with a text.\<close>

definition text_body :: "string \<Rightarrow> api_response" where
  "text_body s = Body (JObj [(''text'', JStr s), (''sources'', JArr [])])"

text \<open>
  A parser that is known on the listed inputs only, a collaborator that always gives the
  same response, and one that gives the listed responses in turn.
\<close>

definition parse_table :: "(string \<times> json) list \<Rightarrow> string \<Rightarrow> json option" where
  "parse_table tbl s = map_of tbl s"

definition always :: "api_response \<Rightarrow> nat \<Rightarrow> api_response" where
  "always r k = r"

definition in_turn :: "api_response list \<Rightarrow> nat \<Rightarrow> api_response" where
  "in_turn rs k = (if k < length rs then rs ! k else FetchRejects)"

text \<open>
  A runtime whose date functions are known on two instants, 2024-05-01 10:00 and 10:01
  UTC, and whose clock shows the second. It writes an integer in decimal digits (as
  every runtime does below \<open>2^53\<close>) and its parser knows no text.
\<close>

definition sample_runtime :: runtime where
  "sample_runtime =
     \<lparr>JSON_parse = parse_table [],
      Number_toString = (\<lambda>q. show_int \<lfloor>q\<rfloor>),
      Date_parse = map_of [(''2024-05-01T10:00:00.000Z'', 1714557600000),
                           (''2024-05-01T10:01:00.000Z'', 1714557660000)],
      toISOString = (\<lambda>t. if t = 1714557600000 then ''2024-05-01T10:00:00.000Z''
                          else if t = 1714557660000 then ''2024-05-01T10:01:00.000Z'' else []),
      Date_now = 1714557660000,
      userAgent = Some ''Mozilla/5.0 (X11; Linux x86_64)'',
      stringify_length = (\<lambda>v. 400)\<rparr>"

definition stored_paris :: json where
  "stored_paris =
     JObj [(''id'', JStr ''local_1714557600000''),
           (''title'', JStr ''Weather in Paris''),
           (''snippet'', JStr ''Weather in Paris''),
           (''messages'', JArr [JObj [(''id'', JStr ''1714557600000''),
                                      (''type'', JStr ''user''),
                                      (''original'', JStr ''Weather in Paris''),
                                      (''timestamp'', JStr ''2024-05-01T10:00:00.000Z'')]]),
           (''createdAt'', JStr ''2024-05-01T10:00:00.000Z''),
           (''updatedAt'', JStr ''2024-05-01T10:00:00.000Z'')]"

definition stored_tokyo :: json where
  "stored_tokyo =
     JObj [(''id'', JStr ''local_1714557600001''),
           (''title'', JStr ''Rain in Tokyo''),
           (''meta'', JObj [(''device'', JStr ''Mozilla/5.0''), (''version'', JNum (Finite 1)),
                            (''truncated'', JBool False)]),
           (''createdAt'', JStr ''2024-05-01T10:00:00.000Z''),
           (''updatedAt'', JStr ''2024-05-01T10:00:00.000Z'')]"

text \<open>A record whose \<^verbatim>\<open>createdAt\<close> is not a date.\<close>

definition stored_undated :: json where
  "stored_undated =
     JObj [(''id'', JStr ''local_1''),
           (''title'', JStr ''Weather in Paris''),
           (''createdAt'', JStr ''not a date''),
           (''updatedAt'', JStr ''2024-05-01T10:00:00.000Z'')]"

text \<open>
  A record as \<^verbatim>\<open>JSON.parse\<close> returns it for a text with \<^verbatim>\<open>"version":1e999\<close> in
  \<^verbatim>\<open>meta\<close>.
\<close>

definition stored_overflow :: json where
  "stored_overflow =
     JObj [(''id'', JStr ''local_2''),
           (''title'', JStr ''Snow in Oslo''),
           (''meta'', JObj [(''version'', JNum PlusInfinity)]),
           (''createdAt'', JStr ''2024-05-01T10:00:00.000Z''),
           (''updatedAt'', JStr ''2024-05-01T10:00:00.000Z'')]"

definition browser :: "slot \<Rightarrow> storage" where
  "browser s = \<lparr>has_window = True, chats_slot = s, setItem_ok = True\<rparr>"

section \<open>Auxiliary facts\<close>

lemma findIndex_Some:
  "findIndex p xs = Some i \<Longrightarrow> i < length xs \<and> p (xs ! i)"
proof (induction xs arbitrary: i)
  case Nil
  then show ?case by simp
next
  case (Cons x xs)
  then show ?case
    by (cases i) (auto split: if_splits option.splits)
qed

lemma findIndex_None: "findIndex p xs = None \<longleftrightarrow> (\<forall>x \<in> set xs. \<not> p x)"
  by (induction xs) (auto split: option.splits)

lemma findIndex_first:
  "k < length xs \<Longrightarrow> p (xs ! k) \<Longrightarrow> (\<forall>j<k. \<not> p (xs ! j)) \<Longrightarrow> findIndex p xs = Some k"
proof (induction xs arbitrary: k)
  case Nil
  then show ?case by simp
next
  case (Cons x xs)
  show ?case
  proof (cases k)
    case 0
    with Cons.prems show ?thesis by simp
  next
    case (Suc n)
    with Cons.prems have "\<not> p x" by auto
    moreover from Suc Cons.prems have "findIndex p xs = Some n"
      by (intro Cons.IH) auto
    ultimately show ?thesis using Suc by simp
  qed
qed

lemma findIndex_distinct:
  assumes "distinct (map msg_id batch)" and "k < length batch"
  shows "findIndex (\<lambda>b. msg_id b = msg_id (batch ! k)) batch = Some k"
proof (rule findIndex_first)
  show "k < length batch" by fact
  show "msg_id (batch ! k) = msg_id (batch ! k)" by simp
  show "\<forall>j<k. msg_id (batch ! j) \<noteq> msg_id (batch ! k)"
  proof (intro allI impI)
    fix j assume "j < k"
    with assms have "map msg_id batch ! j \<noteq> map msg_id batch ! k"
      by (auto simp: distinct_conv_nth)
    with \<open>j < k\<close> assms(2) show "msg_id (batch ! j) \<noteq> msg_id (batch ! k)" by simp
  qed
qed

lemma opt_chain_object: "opt_chain (Some (JObj kvs)) k = map_of kvs k"
  by (simp add: opt_chain_def get_prop_def)

lemma with_translation_entry:
  "opt_chain (msg_translations (with_translation language (Some x) m)) language = Some x"
  by (simp add: with_translation_def opt_chain_object update_conv')

lemma getMessageText_written:
  "getMessageText (with_translation language (Some (JStr s)) m) language = JStr s"
  by (simp add: getMessageText_def with_translation_entry coalesce_def)

section \<open>Display resolver\<close>

text \<open>
  Claim C4, as the code has it. The resolver is a total function of the message and the
  language: it returns a value on every input and has no state to change and no
  collaborator to call. It returns the entry \<^verbatim>\<open>translations[language]\<close> whenever that
  entry is neither undefined nor null, an empty string included, and the original text
  otherwise.
\<close>

theorem getMessageText_resolves:
  "(opt_chain (msg_translations m) language = Some v \<and> v \<noteq> JNull \<longrightarrow> getMessageText m language = v) \<and>
   (nullish (opt_chain (msg_translations m) language) \<longrightarrow> getMessageText m language = JStr (original m))"
  by (auto simp: getMessageText_def coalesce_def nullish_def split: json.splits option.splits)

theorem getMessageText_resolves_witness:
  "getMessageText ((plain_message ''2'' Assistant ''Sunny today'')
       \<lparr>msg_translations := Some (JObj [(''ja-JP'', JStr ''Hare'')])\<rparr>) ''ja-JP'' = JStr ''Hare'' \<and>
   getMessageText (plain_message ''2'' Assistant ''Sunny today'') ''ja-JP'' = JStr ''Sunny today''"
proof -
  let ?m = "(plain_message ''2'' Assistant ''Sunny today'')\<lparr>msg_translations := Some (JObj [(''ja-JP'', JStr ''Hare'')])\<rparr>"
  have present: "opt_chain (msg_translations ?m) ''ja-JP'' = Some (JStr ''Hare'') \<and> JStr ''Hare'' \<noteq> JNull"
    by (simp add: opt_chain_object)
  have absent: "nullish (opt_chain (msg_translations (plain_message ''2'' Assistant ''Sunny today'')) ''ja-JP'')"
    by (simp add: plain_message_def opt_chain_def nullish_def)
  have orig: "original (plain_message ''2'' Assistant ''Sunny today'') = ''Sunny today''"
    by (simp add: plain_message_def)
  from getMessageText_resolves [of ?m "''ja-JP''" "JStr ''Hare''"] present
  have "getMessageText ?m ''ja-JP'' = JStr ''Hare''" by blast
  moreover from getMessageText_resolves [of "plain_message ''2'' Assistant ''Sunny today''" "''ja-JP''"] absent orig
  have "getMessageText (plain_message ''2'' Assistant ''Sunny today'') ''ja-JP'' = JStr ''Sunny today''"
    by simp
  ultimately show ?thesis by simp
qed

text \<open>
  The claim as stated fails on an entry that is present and empty: the resolver returns
  the empty entry, not the original text.
\<close>

theorem getMessageText_empty_entry_counterexample:
  "getMessageText ((plain_message ''2'' Assistant ''Sunny today'')
       \<lparr>msg_translations := Some (JObj [(''ja-JP'', JStr [])])\<rparr>) ''ja-JP'' = JStr [] \<and>
   original ((plain_message ''2'' Assistant ''Sunny today'')
       \<lparr>msg_translations := Some (JObj [(''ja-JP'', JStr [])])\<rparr>) = ''Sunny today''"
  by (simp add: getMessageText_def coalesce_def opt_chain_object plain_message_def)

section \<open>Writers of the translation cache\<close>

text \<open>
  Claim C1, as the code has it. Neither writer tests the entry before it writes. When a
  request completes, the entry of every message with its id is replaced by its result
  (a string when the proxy keeps to its contract, and whatever value \<open>v\<close> the call
  returned otherwise), whatever the entry held: the last completed writer wins. This holds for the on-demand
  writer and for the batch writer, on any message list the state holds at that moment.
  A message whose id the completion does not name is left as it was.
\<close>

theorem translation_last_writer_wins:
  assumes "i < length prev"
  shows "(msg_id (prev ! i) = message_id \<longrightarrow>
            getMessageText (apply_translation message_id language (JStr translated) prev ! i) language = JStr translated) \<and>
         (msg_id (prev ! i) = message_id \<longrightarrow>
            opt_chain (msg_translations (apply_translation message_id language v prev ! i)) language = Some v) \<and>
         (msg_id (prev ! i) \<noteq> message_id \<longrightarrow>
            apply_translation message_id language v prev ! i = prev ! i) \<and>
         (findIndex (\<lambda>b. msg_id b = msg_id (prev ! i)) batch = Some idx \<and> idx < length results \<longrightarrow>
            getMessageText (apply_batch batch language results prev ! i) language = JStr (results ! idx)) \<and>
         (findIndex (\<lambda>b. msg_id b = msg_id (prev ! i)) batch = None \<longrightarrow>
            apply_batch batch language results prev ! i = prev ! i)"
  using assms
  by (simp add: apply_translation_def apply_batch_def at_index_def getMessageText_written
        with_translation_entry)

theorem translation_last_writer_wins_witness:
  "getMessageText
     (apply_translation ''7'' ''ja-JP'' (JStr ''second'')
        (apply_translation ''7'' ''ja-JP'' (JStr ''first'')
           [plain_message ''7'' Assistant ''Hello'', plain_message ''8'' Assistant ''Bye'']) ! 0)
     ''ja-JP'' = JStr ''second'' \<and>
   getMessageText
     (apply_batch [plain_message ''7'' Assistant ''Hello''] ''ja-JP'' [''third'']
        (apply_translation ''7'' ''ja-JP'' (JStr ''first'')
           [plain_message ''7'' Assistant ''Hello'', plain_message ''8'' Assistant ''Bye'']) ! 0)
     ''ja-JP'' = JStr ''third'' \<and>
   apply_translation ''7'' ''ja-JP'' (JStr ''second'')
     [plain_message ''7'' Assistant ''Hello'', plain_message ''8'' Assistant ''Bye''] ! 1 =
   plain_message ''8'' Assistant ''Bye'' \<and>
   apply_batch [plain_message ''7'' Assistant ''Hello''] ''ja-JP'' [''third'']
     [plain_message ''7'' Assistant ''Hello'', plain_message ''8'' Assistant ''Bye''] ! 1 =
   plain_message ''8'' Assistant ''Bye''"
proof -
  let ?ms = "[plain_message ''7'' Assistant ''Hello'', plain_message ''8'' Assistant ''Bye'']"
  let ?prev = "apply_translation ''7'' ''ja-JP'' (JStr ''first'') ?ms"
  have len: "0 < length ?prev" "1 < length ?ms"
    by (simp_all add: apply_translation_def)
  have id0: "msg_id (?prev ! 0) = ''7''"
    by (simp add: apply_translation_def plain_message_def with_translation_def)
  have idx0: "findIndex (\<lambda>b. msg_id b = msg_id (?prev ! 0)) [plain_message ''7'' Assistant ''Hello''] = Some 0 \<and>
              0 < length [''third'']"
    by (simp add: id0) (simp add: plain_message_def)
  have id1: "msg_id (?ms ! 1) \<noteq> ''7''"
    by (simp add: plain_message_def)
  have idx1: "findIndex (\<lambda>b. msg_id b = msg_id (?ms ! 1)) [plain_message ''7'' Assistant ''Hello''] = None"
    by (simp add: plain_message_def)
  note first = translation_last_writer_wins [OF len(1), of "''7''" "''ja-JP''" "''second''"
      "JStr ''second''" "[plain_message ''7'' Assistant ''Hello'']" 0 "[''third'']"]
  note other = translation_last_writer_wins [OF len(2), of "''7''" "''ja-JP''" "''second''"
      "JStr ''second''" "[plain_message ''7'' Assistant ''Hello'']" 0 "[''third'']"]
  from first id0 idx0 other id1 idx1 show ?thesis
    by simp
qed

text \<open>
  The claim as stated fails: an on-demand call fills the entry of message 7 with its
  result, and the batch result that arrives afterwards for the same message and language
  replaces it.
\<close>

theorem first_writer_wins_counterexample:
  "getMessageText
     (hd (view_messages
        (run (initial_view [plain_message ''7'' Assistant ''Hello''])
           [Invoke (plain_message ''7'' Assistant ''Hello'') ''ja-JP'',
            Settle 0 (text_body ''fast'')]))) ''ja-JP'' = JStr ''fast'' \<and>
   getMessageText
     (hd (apply_batch [plain_message ''7'' Assistant ''Hello''] ''ja-JP'' [''slow'']
        (view_messages
           (run (initial_view [plain_message ''7'' Assistant ''Hello''])
              [Invoke (plain_message ''7'' Assistant ''Hello'') ''ja-JP'',
               Settle 0 (text_body ''fast'')])))) ''ja-JP'' = JStr ''slow''"
  by code_simp

section \<open>The concurrency bound\<close>

lemma filter_length_update:
  "i < length ts \<Longrightarrow>
   length (filter P (ts[i := x])) + (if P (ts ! i) then 1 else 0) =
   length (filter P ts) + (if P x then 1 else 0)"
proof (induction ts arbitrary: i)
  case Nil
  then show ?case by simp
next
  case (Cons t ts)
  show ?case
  proof (cases i)
    case 0
    then show ?thesis by simp
  next
    case (Suc j)
    with Cons.prems have "j < length ts" by simp
    from Cons.IH [OF this] Suc show ?thesis by simp
  qed
qed

lemma pending_start:
  assumes "i < length (tasks v)" and "task_phase (tasks v ! i) = Waiting"
  shows "pending_calls (v\<lparr>tasks := (tasks v)[i := (tasks v ! i)\<lparr>task_phase := Calling\<rparr>]\<rparr>) =
         Suc (pending_calls v)"
  using filter_length_update [OF assms(1), of "\<lambda>t. task_phase t = Calling"
      "(tasks v ! i)\<lparr>task_phase := Calling\<rparr>"] assms(2)
  by (simp add: pending_calls_def)

lemma pending_finish:
  assumes "i < length (tasks v)" and "task_phase (tasks v ! i) = Calling"
  shows "Suc (pending_calls (v\<lparr>tasks := (tasks v)[i := (tasks v ! i)\<lparr>task_phase := Finished\<rparr>]\<rparr>)) =
         pending_calls v"
  using filter_length_update [OF assms(1), of "\<lambda>t. task_phase t = Calling"
      "(tasks v ! i)\<lparr>task_phase := Finished\<rparr>"] assms(2)
  by (simp add: pending_calls_def)

lemma slots_ok_startWhenAllowed:
  assumes "slots_ok v" and "i < length (tasks v)" and "task_phase (tasks v ! i) = Waiting"
  shows "slots_ok (startWhenAllowed i v)"
proof (cases "translatingCountRef v \<ge> MAX_CONCURRENT_TRANSLATIONS")
  case True
  with assms(1) show ?thesis by (simp add: startWhenAllowed_def)
next
  case False
  have "pending_calls (startWhenAllowed i v) = Suc (pending_calls v)"
    using False pending_start [OF assms(2,3)]
    by (simp add: startWhenAllowed_def Let_def pending_calls_def)
  moreover have "translatingCountRef (startWhenAllowed i v) = translatingCountRef v + 1"
    using False by (simp add: startWhenAllowed_def Let_def)
  ultimately show ?thesis
    using assms(1) False by (simp add: slots_ok_def)
qed

lemma slots_ok_ensureTranslation:
  assumes "slots_ok v"
  shows "slots_ok (ensureTranslation m language v)"
proof -
  let ?v = "v\<lparr>tasks := tasks v @ [\<lparr>task_message = m, task_language = language, task_phase = Waiting\<rparr>]\<rparr>"
  have "slots_ok ?v"
    using assms by (simp add: slots_ok_def pending_calls_def)
  then have "slots_ok (startWhenAllowed (length (tasks v)) ?v)"
    by (rule slots_ok_startWhenAllowed) simp_all
  with assms show ?thesis
    by (simp add: ensureTranslation_def)
qed

lemma slots_ok_settle:
  assumes "slots_ok v"
  shows "slots_ok (settle i response v)"
proof (cases "i < length (tasks v) \<and> task_phase (tasks v ! i) = Calling")
  case False
  with assms show ?thesis by (auto simp: settle_def)
next
  case True
  then have i: "i < length (tasks v)" and c: "task_phase (tasks v ! i) = Calling" by simp_all
  have p: "Suc (pending_calls (settle i response v)) = pending_calls v"
    using True pending_finish [OF i c]
    by (simp add: settle_def Let_def pending_calls_def split: sum.splits)
  have n: "translatingCountRef (settle i response v) = translatingCountRef v - 1"
    using True by (simp add: settle_def Let_def split: sum.splits)
  from assms p n show ?thesis
    by (simp add: slots_ok_def)
qed

lemma slots_ok_step:
  assumes "slots_ok v"
  shows "slots_ok (step v e)"
proof (cases e)
  case (Invoke m l)
  with assms show ?thesis by (simp add: slots_ok_ensureTranslation)
next
  case (Effect m l)
  with assms show ?thesis by (simp add: translation_effect_def slots_ok_ensureTranslation)
next
  case (Wake i)
  with assms show ?thesis by (simp add: wake_def slots_ok_startWhenAllowed)
next
  case (Settle i r)
  with assms show ?thesis by (simp add: slots_ok_settle)
next
  case (SetMessages ms)
  with assms show ?thesis by (simp add: slots_ok_def pending_calls_def)
qed

lemma slots_ok_run: "slots_ok v \<Longrightarrow> slots_ok (run v evs)"
  unfolding run_def
  by (induction evs arbitrary: v) (simp_all add: slots_ok_step)

lemma slots_ok_initial: "slots_ok (initial_view ms)"
  by (simp add: slots_ok_def initial_view_def pending_calls_def MAX_CONCURRENT_TRANSLATIONS_def)

text \<open>Every task holds a message with a text, so that starting it does send a request.\<close>

lemma phase_update_keeps_text:
  assumes "\<forall>t \<in> set ts. original (task_message t) \<noteq> []" and "i < length ts"
  shows "\<forall>t \<in> set (ts[i := (ts ! i)\<lparr>task_phase := p\<rparr>]). original (task_message t) \<noteq> []"
proof
  fix t assume "t \<in> set (ts[i := (ts ! i)\<lparr>task_phase := p\<rparr>])"
  then have "t = (ts ! i)\<lparr>task_phase := p\<rparr> \<or> t \<in> set ts"
    using set_update_subset_insert [of ts i "(ts ! i)\<lparr>task_phase := p\<rparr>"] by auto
  with assms show "original (task_message t) \<noteq> []"
    by (auto simp: nth_mem)
qed

lemma tasks_have_text_start:
  assumes "\<forall>t \<in> set (tasks v). original (task_message t) \<noteq> []" and "i < length (tasks v)"
  shows "\<forall>t \<in> set (tasks (startWhenAllowed i v)). original (task_message t) \<noteq> []"
  using assms phase_update_keeps_text [OF assms, of Calling]
  by (simp add: startWhenAllowed_def Let_def)

lemma tasks_have_text_ensure:
  assumes "\<forall>t \<in> set (tasks v). original (task_message t) \<noteq> []"
  shows "\<forall>t \<in> set (tasks (ensureTranslation m l v)). original (task_message t) \<noteq> []"
proof (cases "original m = [] \<or> has_translation m l \<or> msg_id m \<in> translatingRef v")
  case True
  with assms show ?thesis by (auto simp: ensureTranslation_def)
next
  case False
  let ?v = "v\<lparr>tasks := tasks v @ [\<lparr>task_message = m, task_language = l, task_phase = Waiting\<rparr>]\<rparr>"
  have "\<forall>t \<in> set (tasks ?v). original (task_message t) \<noteq> []"
    using assms False by auto
  then have "\<forall>t \<in> set (tasks (startWhenAllowed (length (tasks v)) ?v)). original (task_message t) \<noteq> []"
    by (rule tasks_have_text_start) simp
  with False show ?thesis
    by (simp add: ensureTranslation_def)
qed

lemma tasks_have_text_step:
  assumes "\<forall>t \<in> set (tasks v). original (task_message t) \<noteq> []"
  shows "\<forall>t \<in> set (tasks (step v e)). original (task_message t) \<noteq> []"
proof (cases e)
  case (Invoke m l)
  with tasks_have_text_ensure [OF assms] show ?thesis by simp
next
  case (Effect m l)
  with tasks_have_text_ensure [OF assms] assms show ?thesis by (simp add: translation_effect_def)
next
  case (Wake i)
  show ?thesis
  proof (cases "i < length (tasks v) \<and> task_phase (tasks v ! i) = Waiting")
    case False
    with Wake assms show ?thesis by (auto simp: wake_def)
  next
    case True
    then have "i < length (tasks v)" by simp
    from tasks_have_text_start [OF assms this] True Wake show ?thesis
      by (simp add: wake_def)
  qed
next
  case (Settle i r)
  show ?thesis
  proof (cases "i < length (tasks v) \<and> task_phase (tasks v ! i) = Calling")
    case False
    with Settle assms show ?thesis by (auto simp: settle_def)
  next
    case True
    then have "i < length (tasks v)" by simp
    from phase_update_keeps_text [OF assms this, of Finished] True Settle show ?thesis
      by (simp add: settle_def Let_def split: sum.splits)
  qed
next
  case (SetMessages ms)
  with assms show ?thesis by simp
qed

lemma tasks_have_text:
  "\<forall>t \<in> set (tasks (run (initial_view ms) evs)). original (task_message t) \<noteq> []"
proof -
  have "(\<forall>t \<in> set (tasks v). original (task_message t) \<noteq> []) \<Longrightarrow>
        \<forall>t \<in> set (tasks (foldl step v evs)). original (task_message t) \<noteq> []" for v
  proof (induction evs arbitrary: v)
    case Nil
    then show ?case by simp
  next
    case (Cons e evs)
    from Cons.prems have "\<forall>t \<in> set (tasks (step v e)). original (task_message t) \<noteq> []"
      by (rule tasks_have_text_step)
    then have "\<forall>t \<in> set (tasks (foldl step (step v e) evs)). original (task_message t) \<noteq> []"
      by (rule Cons.IH)
    then show ?case by simp
  qed
  from this [of "initial_view ms"] show ?thesis
    by (simp add: run_def initial_view_def)
qed

text \<open>
  Claim C2. From the initial view, after any sequence of events (calls of
  \<^verbatim>\<open>ensureTranslation\<close>, effects, timers firing, requests settling with any outcome,
  other updates of the message list, in any order), the number of on-demand requests
  that have been sent and have not settled is at most
  \<^verbatim>\<open>MAX_CONCURRENT_TRANSLATIONS\<close>, which is 3.
\<close>

theorem pending_calls_bounded:
  "int (pending_calls (run (initial_view ms) evs)) \<le> MAX_CONCURRENT_TRANSLATIONS \<and>
   pending_calls (run (initial_view ms) evs) \<le> 3"
  using slots_ok_run [OF slots_ok_initial, of ms evs]
  by (simp add: slots_ok_def MAX_CONCURRENT_TRANSLATIONS_def)

text \<open>Ten messages ask for their translation at once: three requests are pending.\<close>

theorem pending_calls_bounded_witness:
  "pending_calls (run (initial_view ten_messages) (invoke_all ''ja-JP'' ten_messages)) \<le> 3 \<and>
   length ten_messages = 10 \<and>
   pending_calls (run (initial_view ten_messages) (invoke_all ''ja-JP'' ten_messages)) = 3"
proof -
  have "length ten_messages = 10"
    by (simp add: ten_messages_def)
  moreover have "pending_calls (run (initial_view ten_messages) (invoke_all ''ja-JP'' ten_messages)) = 3"
    by code_simp
  ultimately show ?thesis
    using pending_calls_bounded [of ten_messages "invoke_all ''ja-JP'' ten_messages"] by simp
qed

section \<open>Deduplication of on-demand requests\<close>

text \<open>What holds of claim C3 on the code: a cached pair sends nothing.\<close>

lemma ensureTranslation_cached_noop:
  "has_translation m language \<Longrightarrow> ensureTranslation m language v = v"
  by (simp add: ensureTranslation_def)

lemma batch_translation_cached_noop:
  assumes "\<forall>m \<in> set ms. has_translation m language"
  shows "batch_translation rt api language ms = ([], ms)"
proof -
  have "filter (needs_translation language) ms = []"
    using assms by (auto simp: filter_empty_conv needs_translation_def has_translation_def)
  then show ?thesis by (simp add: batch_translation_def)
qed

text \<open>And while a slot is free, the second of two calls in a row sends nothing.\<close>

lemma ensureTranslation_twice_one_call:
  assumes "translatingCountRef v < MAX_CONCURRENT_TRANSLATIONS"
    and "original m \<noteq> []" and "\<not> has_translation m language"
    and "msg_id m \<notin> translatingRef v"
  shows "outbound (ensureTranslation m language (ensureTranslation m language v)) =
         outbound v @ [(original m, language)]"
proof -
  have first: "msg_id m \<in> translatingRef (ensureTranslation m language v) \<and>
        outbound (ensureTranslation m language v) = outbound v @ [(original m, language)]"
    using assms by (simp add: ensureTranslation_def startWhenAllowed_def Let_def)
  then show ?thesis
    using assms(2,3) by (simp add: ensureTranslation_def)
qed

text \<open>
  Claim C3 fails on the code when no slot is free. The in-flight mark is set after the
  wait for a slot, so two calls of \<^verbatim>\<open>ensureTranslation\<close> in a row for message 4, made
  while three other requests are pending, both pass the in-flight test and both wait.
  When two slots are free again each of them sends its own request: two requests for the
  same message and language.
\<close>

theorem duplicate_calls_when_saturated:
  "outbound
     (run (initial_view [plain_message ''1'' Assistant ''one'', plain_message ''2'' Assistant ''two'',
                         plain_message ''3'' Assistant ''three'', plain_message ''4'' Assistant ''four''])
        [Invoke (plain_message ''1'' Assistant ''one'') ''ja-JP'',
         Invoke (plain_message ''2'' Assistant ''two'') ''ja-JP'',
         Invoke (plain_message ''3'' Assistant ''three'') ''ja-JP'',
         Invoke (plain_message ''4'' Assistant ''four'') ''ja-JP'',
         Invoke (plain_message ''4'' Assistant ''four'') ''ja-JP'',
         Settle 0 (text_body ''ichi''),
         Settle 1 (text_body ''ni''),
         Wake 3,
         Wake 4])
   = [(''one'', ''ja-JP''), (''two'', ''ja-JP''), (''three'', ''ja-JP''),
      (''four'', ''ja-JP''), (''four'', ''ja-JP'')]"
  by code_simp

section \<open>Batch translation\<close>

lemma groups_of_concat: "0 < n \<Longrightarrow> concat (groups_of n xs) = xs"
proof (induction n xs rule: groups_of.induct)
  case (1 n xs)
  then show ?case by (subst groups_of.simps) auto
qed

lemma groups_of_bounded: "g \<in> set (groups_of n xs) \<Longrightarrow> g \<noteq> [] \<and> length g \<le> n"
proof (induction n xs rule: groups_of.induct)
  case (1 n xs)
  from "1.prems" have ne: "\<not> (n = 0 \<or> xs = [])"
    by (subst (asm) groups_of.simps) (auto split: if_splits)
  from "1.prems" ne have "g = take n xs \<or> g \<in> set (groups_of n (drop n xs))"
    by (subst (asm) groups_of.simps) auto
  then show ?case
  proof
    assume "g = take n xs"
    with ne show ?thesis by auto
  next
    assume "g \<in> set (groups_of n (drop n xs))"
    with "1.IH" ne show ?thesis by blast
  qed
qed

lemma groups_of_length: "0 < n \<Longrightarrow> length (groups_of n xs) = (length xs + n - 1) div n"
proof (induction n xs rule: groups_of.induct)
  case (1 n xs)
  show ?case
  proof (cases "xs = []")
    case True
    with "1.prems" show ?thesis by (subst groups_of.simps) simp
  next
    case False
    with "1.prems" have ih: "length (groups_of n (drop n xs)) = (length (drop n xs) + n - 1) div n"
      using "1.IH" by simp
    have unfolded: "length (groups_of n xs) = Suc (length (groups_of n (drop n xs)))"
      using False "1.prems" by (subst groups_of.simps) simp
    show ?thesis
    proof (cases "length xs \<le> n")
      case True
      with False "1.prems" have "(length xs + n - 1) div n = 1"
        by (cases xs) (simp_all add: div_eq_dividend_iff Suc_le_eq le_div_geq)
      moreover from "1.prems" have "(n - 1) div n = 0" by simp
      ultimately show ?thesis using unfolded ih True by simp
    next
      case longer: False
      then have "length xs + n - 1 = (length xs - n + n - 1) + n" by simp
      then have "(length xs + n - 1) div n = Suc ((length xs - n + n - 1) div n)"
        using "1.prems" by (metis div_add_self2 not_gr_zero Suc_eq_plus1)
      with unfolded ih show ?thesis by simp
    qed
  qed
qed

lemma groups_of_map: "groups_of n (map f xs) = map (map f) (groups_of n xs)"
proof (induction n xs rule: groups_of.induct)
  case (1 n xs)
  show ?case
  proof (cases "n = 0 \<or> xs = []")
    case True
    then show ?thesis by (subst groups_of.simps, subst (2) groups_of.simps) auto
  next
    case False
    with "1.IH" have "groups_of n (map f (drop n xs)) = map (map f) (groups_of n (drop n xs))"
      by simp
    with False show ?thesis
      by (subst groups_of.simps, subst (2) groups_of.simps) (simp add: take_map drop_map)
  qed
qed

lemma groups_of_single: "xs \<noteq> [] \<Longrightarrow> length xs \<le> n \<Longrightarrow> groups_of n xs = [xs]"
  by (subst groups_of.simps, subst groups_of.simps) (cases xs, auto)

lemma batch_loop_calls:
  "fst (batch_loop rt api language toTranslate i (calls, msgs)) =
   calls @ groups_of BATCH (map original (drop i toTranslate))"
proof (induction rt api language toTranslate i "(calls, msgs)" arbitrary: calls msgs
       rule: batch_loop.induct)
  case (1 rt api language toTranslate i calls msgs)
  show ?case
  proof (cases "i < length toTranslate")
    case False
    then show ?thesis
      by (subst batch_loop.simps, subst groups_of.simps) simp
  next
    case True
    let ?batch = "take BATCH (drop i toTranslate)"
    let ?texts = "map original ?batch"
    from True have ne: "?texts \<noteq> []" by (simp add: BATCH_def)
    have g: "groups_of BATCH (map original (drop i toTranslate)) =
             ?texts # groups_of BATCH (map original (drop (i + BATCH) toTranslate))"
      using True
      by (subst groups_of.simps) (simp add: BATCH_def take_map drop_map add.commute)
    show ?thesis
    proof (cases "batchTranslate rt ?texts language (api (length calls))")
      case (Inl err)
      with True ne "1.hyps"(1) [OF True refl refl refl Inl] g
      show ?thesis
        by (subst batch_loop.simps) (simp add: Let_def)
    next
      case (Inr results)
      with True ne "1.hyps"(2) [OF True refl refl refl Inr] g
      show ?thesis
        by (subst batch_loop.simps) (simp add: Let_def)
    qed
  qed
qed

lemma batch_translation_calls:
  "fst (batch_translation rt api language msgs) =
   groups_of BATCH (map original (filter (needs_translation language) msgs))"
  by (simp add: batch_translation_def Let_def batch_loop_calls)
     (simp add: groups_of.simps)

lemma batch_loop_result:
  "snd (batch_loop rt api language toTranslate i (calls, msgs)) =
   apply_groups rt api language (length calls) (groups_of BATCH (drop i toTranslate)) msgs"
proof (induction rt api language toTranslate i "(calls, msgs)" arbitrary: calls msgs
       rule: batch_loop.induct)
  case (1 rt api language toTranslate i calls msgs)
  show ?case
  proof (cases "i < length toTranslate")
    case False
    then show ?thesis
      by (subst batch_loop.simps, subst groups_of.simps) simp
  next
    case True
    let ?batch = "take BATCH (drop i toTranslate)"
    let ?texts = "map original ?batch"
    from True have ne: "?texts \<noteq> []" by (simp add: BATCH_def)
    have g: "groups_of BATCH (drop i toTranslate) =
             ?batch # groups_of BATCH (drop (i + BATCH) toTranslate)"
      using True
      by (subst groups_of.simps) (simp add: BATCH_def add.commute)
    show ?thesis
    proof (cases "batchTranslate rt ?texts language (api (length calls))")
      case (Inl err)
      with True ne "1.hyps"(1) [OF True refl refl refl Inl] g
      show ?thesis
        by (subst batch_loop.simps) (simp add: Let_def)
    next
      case (Inr results)
      with True ne "1.hyps"(2) [OF True refl refl refl Inr] g
      show ?thesis
        by (subst batch_loop.simps) (simp add: Let_def)
    qed
  qed
qed

lemma batch_translation_result:
  "snd (batch_translation rt api language msgs) =
   apply_groups rt api language 0 (groups_of BATCH (filter (needs_translation language) msgs)) msgs"
  by (simp add: batch_translation_def Let_def batch_loop_result)
     (simp add: groups_of.simps)

lemma with_translation_lookup:
  "opt_chain (msg_translations (with_translation language v m)) language = v"
  by (cases v) (simp_all add: with_translation_def opt_chain_object update_conv' delete_conv')

lemma apply_batch_entry:
  assumes "i < length prev"
    and "findIndex (\<lambda>b. msg_id b = msg_id (prev ! i)) batch = Some idx"
  shows "opt_chain (msg_translations (apply_batch batch language results prev ! i)) language =
         at_index results idx"
  using assms by (simp add: apply_batch_def with_translation_lookup)

lemma apply_batch_other:
  assumes "i < length prev"
    and "findIndex (\<lambda>b. msg_id b = msg_id (prev ! i)) batch = None"
  shows "apply_batch batch language results prev ! i = prev ! i"
  using assms by (simp add: apply_batch_def)

lemma findIndex_least:
  "findIndex p xs = Some idx \<Longrightarrow> idx < length xs \<and> p (xs ! idx) \<and> (\<forall>j<idx. \<not> p (xs ! j))"
proof (induction xs arbitrary: idx)
  case Nil
  then show ?case by simp
next
  case (Cons x xs)
  show ?case
  proof (cases "p x")
    case True
    with Cons.prems show ?thesis by simp
  next
    case False
    with Cons.prems obtain n where n: "findIndex p xs = Some n" "idx = Suc n"
      by (auto split: option.splits)
    from Cons.IH [OF n(1)] False n(2) show ?thesis
      by (auto simp: less_Suc_eq_0_disj)
  qed
qed

lemma apply_batch_positional:
  assumes "distinct (map msg_id batch)" and "k < length batch" and "k < length results"
    and "i < length prev" and "msg_id (prev ! i) = msg_id (batch ! k)"
  shows "getMessageText (apply_batch batch language results prev ! i) language = JStr (results ! k)"
  using assms findIndex_distinct [OF assms(1) assms(2)]
  by (simp add: apply_batch_def at_index_def getMessageText_written)

lemma single_group_positional:
  assumes d: "distinct (map msg_id msgs)"
    and n: "length (filter (needs_translation language) msgs) \<le> 8"
    and r: "batchTranslate rt (map original (filter (needs_translation language) msgs)) language (api 0) =
            Inr results"
    and k: "k < length (filter (needs_translation language) msgs)" "k < length results"
    and i: "i < length msgs" "msgs ! i = filter (needs_translation language) msgs ! k"
  shows "getMessageText (snd (batch_translation rt api language msgs) ! i) language = JStr (results ! k)"
proof -
  let ?T = "filter (needs_translation language) msgs"
  from k(1) have ne: "?T \<noteq> []" by auto
  with n have g: "groups_of BATCH ?T = [?T]"
    by (simp add: groups_of_single BATCH_def)
  have res: "snd (batch_translation rt api language msgs) = apply_batch ?T language results msgs"
    by (simp add: batch_translation_result g r)
  from d have "distinct (map msg_id ?T)"
    by (rule distinct_map_filter)
  from apply_batch_positional [OF this k(1) k(2) i(1)] i(2) res show ?thesis
    by simp
qed

text \<open>
  Claim C8, as the code has it. The requests the batch flow sends, in the order it sends
  them, are the consecutive groups of \<^verbatim>\<open>BATCH\<close> = 8 of the texts of the messages that
  need a translation (a text, no truthy entry for the language, not a user message):
  every group holds between one and eight texts, together they are those texts in order,
  and there are \<open>\<lceil>n/8\<rceil>\<close> of them (one for five messages). The loop sends the next
  request only when the previous one has settled, and the list it leaves is what
  \<open>apply_groups\<close> says: the results of each successful request written with its group,
  in order, a failed request skipped. The write looks every message of the list the
  state holds at that moment up in the group by its id: a message whose id occurs in the
  group gets the result at the first position of that id (no entry when the results are
  shorter), any other message is left as it was. So the \<open>k\<close>-th message of a group gets
  the \<open>k\<close>-th result when the ids within the group are distinct; and when the ids of
  the list are distinct and at most eight messages need a translation, the flow leaves
  the \<open>k\<close>-th of them with the \<open>k\<close>-th result of the one response.
\<close>

theorem batch_translation_groups_and_positions:
  "fst (batch_translation rt api language msgs) =
     groups_of BATCH (map original (filter (needs_translation language) msgs)) \<and>
   concat (fst (batch_translation rt api language msgs)) =
     map original (filter (needs_translation language) msgs) \<and>
   (\<forall>g \<in> set (fst (batch_translation rt api language msgs)). g \<noteq> [] \<and> length g \<le> 8) \<and>
   length (fst (batch_translation rt api language msgs)) =
     (length (filter (needs_translation language) msgs) + 7) div 8 \<and>
   snd (batch_translation rt api language msgs) =
     apply_groups rt api language 0 (groups_of BATCH (filter (needs_translation language) msgs)) msgs \<and>
   (i < length prev \<and> findIndex (\<lambda>b. msg_id b = msg_id (prev ! i)) batch = Some idx \<longrightarrow>
      opt_chain (msg_translations (apply_batch batch language results prev ! i)) language =
        at_index results idx \<and>
      idx < length batch \<and> msg_id (batch ! idx) = msg_id (prev ! i) \<and>
      (\<forall>j<idx. msg_id (batch ! j) \<noteq> msg_id (prev ! i))) \<and>
   (i < length prev \<and> findIndex (\<lambda>b. msg_id b = msg_id (prev ! i)) batch = None \<longrightarrow>
      apply_batch batch language results prev ! i = prev ! i) \<and>
   (distinct (map msg_id batch) \<and> k < length batch \<and> k < length results \<and>
    i < length prev \<and> msg_id (prev ! i) = msg_id (batch ! k) \<longrightarrow>
      getMessageText (apply_batch batch language results prev ! i) language = JStr (results ! k)) \<and>
   (distinct (map msg_id msgs) \<and> length (filter (needs_translation language) msgs) \<le> 8 \<and>
    batchTranslate rt (map original (filter (needs_translation language) msgs)) language (api 0) =
      Inr results \<and>
    k < length (filter (needs_translation language) msgs) \<and> k < length results \<and>
    i < length msgs \<and> msgs ! i = filter (needs_translation language) msgs ! k \<longrightarrow>
      getMessageText (snd (batch_translation rt api language msgs) ! i) language = JStr (results ! k))"
proof (intro conjI ballI impI)
  show "fst (batch_translation rt api language msgs) =
        groups_of BATCH (map original (filter (needs_translation language) msgs))"
    by (rule batch_translation_calls)
  show "concat (fst (batch_translation rt api language msgs)) =
        map original (filter (needs_translation language) msgs)"
    by (simp add: batch_translation_calls groups_of_concat BATCH_def)
  show "length (fst (batch_translation rt api language msgs)) =
        (length (filter (needs_translation language) msgs) + 7) div 8"
    by (simp add: batch_translation_calls groups_of_length BATCH_def)
  show "snd (batch_translation rt api language msgs) =
        apply_groups rt api language 0 (groups_of BATCH (filter (needs_translation language) msgs)) msgs"
    by (rule batch_translation_result)
next
  fix g assume "g \<in> set (fst (batch_translation rt api language msgs))"
  then have "g \<noteq> [] \<and> length g \<le> BATCH"
    unfolding batch_translation_calls by (rule groups_of_bounded)
  then show "g \<noteq> []" and "length g \<le> 8"
    by (simp_all add: BATCH_def)
next
  assume a: "i < length prev \<and> findIndex (\<lambda>b. msg_id b = msg_id (prev ! i)) batch = Some idx"
  then show "opt_chain (msg_translations (apply_batch batch language results prev ! i)) language =
             at_index results idx"
    by (simp add: apply_batch_entry)
  from a have l: "idx < length batch \<and> msg_id (batch ! idx) = msg_id (prev ! i) \<and>
                  (\<forall>j<idx. msg_id (batch ! j) \<noteq> msg_id (prev ! i))"
    using findIndex_least [of "\<lambda>b. msg_id b = msg_id (prev ! i)" batch idx] by simp
  from l show "idx < length batch" by simp
  from l show "msg_id (batch ! idx) = msg_id (prev ! i)" by simp
  from l show "\<forall>j<idx. msg_id (batch ! j) \<noteq> msg_id (prev ! i)" by simp
next
  assume "i < length prev \<and> findIndex (\<lambda>b. msg_id b = msg_id (prev ! i)) batch = None"
  then show "apply_batch batch language results prev ! i = prev ! i"
    by (simp add: apply_batch_other)
next
  assume "distinct (map msg_id batch) \<and> k < length batch \<and> k < length results \<and>
          i < length prev \<and> msg_id (prev ! i) = msg_id (batch ! k)"
  then show "getMessageText (apply_batch batch language results prev ! i) language = JStr (results ! k)"
    by (simp add: apply_batch_positional)
next
  assume "distinct (map msg_id msgs) \<and> length (filter (needs_translation language) msgs) \<le> 8 \<and>
    batchTranslate rt (map original (filter (needs_translation language) msgs)) language (api 0) =
      Inr results \<and>
    k < length (filter (needs_translation language) msgs) \<and> k < length results \<and>
    i < length msgs \<and> msgs ! i = filter (needs_translation language) msgs ! k"
  then show "getMessageText (snd (batch_translation rt api language msgs) ! i) language = JStr (results ! k)"
    by (simp add: single_group_positional)
qed

text \<open>
  Five assistant and system messages without a Japanese entry, the third message of the
  list being the user's: one request is sent, and the response
  \<^verbatim>\<open>["A","B","C","D","E"]\<close> gives \<open>C\<close> to the third message of the group, in the
  list the flow leaves and in whatever list the state holds by then. Ten assistant
  messages: two requests are sent, of eight texts and of two, and the two responses give
  every message its translation.
\<close>

theorem batch_translation_groups_and_positions_witness:
  \<open>fst (batch_translation
          (sample_runtime\<lparr>JSON_parse := parse_table
             [(''["A","B","C","D","E"]'', JArr [JStr ''A'', JStr ''B'', JStr ''C'', JStr ''D'', JStr ''E''])]\<rparr>)
          (always (text_body ''["A","B","C","D","E"]'')) ''ja-JP''
          [plain_message ''1'' Assistant ''a'', plain_message ''2'' Assistant ''b'',
           plain_message ''3'' User ''u'', plain_message ''4'' Assistant ''c'',
           plain_message ''5'' System ''d'', plain_message ''6'' Assistant ''e''])
     = [[''a'', ''b'', ''c'', ''d'', ''e'']] \<and>
   getMessageText
     (apply_batch
        [plain_message ''1'' Assistant ''a'', plain_message ''2'' Assistant ''b'',
         plain_message ''4'' Assistant ''c'', plain_message ''5'' System ''d'',
         plain_message ''6'' Assistant ''e'']
        ''ja-JP'' [''A'', ''B'', ''C'', ''D'', ''E'']
        [plain_message ''9'' System ''hello'', plain_message ''4'' Assistant ''c''] ! 1)
     ''ja-JP'' = JStr ''C'' \<and>
   apply_batch
        [plain_message ''1'' Assistant ''a'', plain_message ''2'' Assistant ''b'',
         plain_message ''4'' Assistant ''c'', plain_message ''5'' System ''d'',
         plain_message ''6'' Assistant ''e'']
        ''ja-JP'' [''A'', ''B'', ''C'', ''D'', ''E'']
        [plain_message ''9'' System ''hello'', plain_message ''4'' Assistant ''c''] ! 0 =
     plain_message ''9'' System ''hello'' \<and>
   getMessageText
     (snd (batch_translation
          (sample_runtime\<lparr>JSON_parse := parse_table
             [(''["A","B","C","D","E"]'', JArr [JStr ''A'', JStr ''B'', JStr ''C'', JStr ''D'', JStr ''E''])]\<rparr>)
          (always (text_body ''["A","B","C","D","E"]'')) ''ja-JP''
          [plain_message ''1'' Assistant ''a'', plain_message ''2'' Assistant ''b'',
           plain_message ''3'' User ''u'', plain_message ''4'' Assistant ''c'',
           plain_message ''5'' System ''d'', plain_message ''6'' Assistant ''e'']) ! 3)
     ''ja-JP'' = JStr ''C'' \<and>
   map (\<lambda>m. getMessageText m ''ja-JP'')
     (snd (batch_translation
          (sample_runtime\<lparr>JSON_parse := parse_table
             [(''["A","B","C","D","E"]'', JArr [JStr ''A'', JStr ''B'', JStr ''C'', JStr ''D'', JStr ''E''])]\<rparr>)
          (always (text_body ''["A","B","C","D","E"]'')) ''ja-JP''
          [plain_message ''1'' Assistant ''a'', plain_message ''2'' Assistant ''b'',
           plain_message ''3'' User ''u'', plain_message ''4'' Assistant ''c'',
           plain_message ''5'' System ''d'', plain_message ''6'' Assistant ''e'']))
     = [JStr ''A'', JStr ''B'', JStr ''u'', JStr ''C'', JStr ''D'', JStr ''E''] \<and>
   batch_translation
     (sample_runtime\<lparr>JSON_parse := parse_table
        [(''["A","B","C","D","E","F","G","H"]'', JArr (map JStr [''A'', ''B'', ''C'', ''D'', ''E'', ''F'', ''G'', ''H''])),
         (''["I","J"]'', JArr [JStr ''I'', JStr ''J''])]\<rparr>)
     (in_turn [text_body ''["A","B","C","D","E","F","G","H"]'', text_body ''["I","J"]'']) ''ja-JP'' ten_messages
     = ([map original (take 8 ten_messages), map original (drop 8 ten_messages)],
        apply_batch (drop 8 ten_messages) ''ja-JP'' [''I'', ''J'']
          (apply_batch (take 8 ten_messages) ''ja-JP'' [''A'', ''B'', ''C'', ''D'', ''E'', ''F'', ''G'', ''H'']
             ten_messages)) \<and>
   map (\<lambda>m. getMessageText m ''ja-JP'')
     (apply_batch (drop 8 ten_messages) ''ja-JP'' [''I'', ''J'']
        (apply_batch (take 8 ten_messages) ''ja-JP'' [''A'', ''B'', ''C'', ''D'', ''E'', ''F'', ''G'', ''H'']
           ten_messages))
     = map JStr [''A'', ''B'', ''C'', ''D'', ''E'', ''F'', ''G'', ''H'', ''I'', ''J'']\<close>
proof -
  let ?rt10 = \<open>sample_runtime\<lparr>JSON_parse := parse_table
        [(''["A","B","C","D","E","F","G","H"]'', JArr (map JStr [''A'', ''B'', ''C'', ''D'', ''E'', ''F'', ''G'', ''H''])),
         (''["I","J"]'', JArr [JStr ''I'', JStr ''J''])]\<rparr>\<close>
  let ?api10 = \<open>in_turn [text_body ''["A","B","C","D","E","F","G","H"]'', text_body ''["I","J"]'']\<close>
  let ?first = "apply_batch (take 8 ten_messages) ''ja-JP'' [''A'', ''B'', ''C'', ''D'', ''E'', ''F'', ''G'', ''H''] ten_messages"
  let ?rt = \<open>sample_runtime\<lparr>JSON_parse := parse_table
             [(''["A","B","C","D","E"]'', JArr [JStr ''A'', JStr ''B'', JStr ''C'', JStr ''D'', JStr ''E''])]\<rparr>\<close>
  let ?api = \<open>always (text_body ''["A","B","C","D","E"]'')\<close>
  let ?msgs = "[plain_message ''1'' Assistant ''a'', plain_message ''2'' Assistant ''b'',
           plain_message ''3'' User ''u'', plain_message ''4'' Assistant ''c'',
           plain_message ''5'' System ''d'', plain_message ''6'' Assistant ''e'']"
  let ?batch = "[plain_message ''1'' Assistant ''a'', plain_message ''2'' Assistant ''b'',
         plain_message ''4'' Assistant ''c'', plain_message ''5'' System ''d'',
         plain_message ''6'' Assistant ''e'']"
  let ?prev = "[plain_message ''9'' System ''hello'', plain_message ''4'' Assistant ''c'']"
  let ?results = "[''A'', ''B'', ''C'', ''D'', ''E'']"
  have groups: "groups_of BATCH (map original (filter (needs_translation ''ja-JP'') ?msgs)) =
                [[''a'', ''b'', ''c'', ''d'', ''e'']]"
    by code_simp
  have hyps: "distinct (map msg_id ?batch) \<and> 2 < length ?batch \<and>
              2 < length ?results \<and> 1 < length ?prev \<and>
              msg_id (?prev ! 1) = msg_id (?batch ! 2)"
    by (simp add: plain_message_def)
  have absent: "0 < length ?prev \<and> findIndex (\<lambda>b. msg_id b = msg_id (?prev ! 0)) ?batch = None"
    by (simp add: plain_message_def)
  have flow: "distinct (map msg_id ?msgs) \<and> length (filter (needs_translation ''ja-JP'') ?msgs) \<le> 8 \<and>
      batchTranslate ?rt (map original (filter (needs_translation ''ja-JP'') ?msgs)) ''ja-JP'' (?api 0) =
        Inr ?results \<and>
      2 < length (filter (needs_translation ''ja-JP'') ?msgs) \<and> 2 < length ?results \<and>
      3 < length ?msgs \<and> ?msgs ! 3 = filter (needs_translation ''ja-JP'') ?msgs ! 2"
    by code_simp
  have final: "map (\<lambda>m. getMessageText m ''ja-JP'') (snd (batch_translation ?rt ?api ''ja-JP'' ?msgs)) =
               [JStr ''A'', JStr ''B'', JStr ''u'', JStr ''C'', JStr ''D'', JStr ''E'']"
    by code_simp
  note at_prev = batch_translation_groups_and_positions
      [where rt = ?rt and api = ?api and language = "''ja-JP''" and msgs = ?msgs and batch = ?batch
         and k = 2 and results = ?results and i = 1 and prev = ?prev and idx = 2]
  note at_other = batch_translation_groups_and_positions
      [where rt = ?rt and api = ?api and language = "''ja-JP''" and msgs = ?msgs and batch = ?batch
         and k = 2 and results = ?results and i = 0 and prev = ?prev and idx = 2]
  note at_msgs = batch_translation_groups_and_positions
      [where rt = ?rt and api = ?api and language = "''ja-JP''" and msgs = ?msgs and batch = ?batch
         and k = 2 and results = ?results and i = 3 and prev = ?prev and idx = 2]
  have sent: "fst (batch_translation ?rt ?api ''ja-JP'' ?msgs) = [[''a'', ''b'', ''c'', ''d'', ''e'']]"
    using at_prev [THEN conjunct1] unfolding groups .
  have third:
    "getMessageText (apply_batch ?batch ''ja-JP'' ?results ?prev ! 1) ''ja-JP'' = JStr ''C''"
    using at_prev [THEN conjunct2, THEN conjunct2, THEN conjunct2, THEN conjunct2, THEN conjunct2,
                   THEN conjunct2, THEN conjunct2, THEN conjunct1, THEN mp, OF hyps]
    by (simp only: nth_Cons_0 nth_Cons_numeral nth_Cons_Suc numeral_2_eq_2 One_nat_def diff_numeral_special)
  have "apply_batch ?batch ''ja-JP'' ?results ?prev ! 0 = ?prev ! 0"
    using at_other [THEN conjunct2, THEN conjunct2, THEN conjunct2, THEN conjunct2, THEN conjunct2,
                    THEN conjunct2, THEN conjunct1, THEN mp, OF absent] .
  then have other: "apply_batch ?batch ''ja-JP'' ?results ?prev ! 0 = plain_message ''9'' System ''hello''"
    by simp
  have left:
    "getMessageText (snd (batch_translation ?rt ?api ''ja-JP'' ?msgs) ! 3) ''ja-JP'' = JStr ''C''"
    using at_msgs [THEN conjunct2, THEN conjunct2, THEN conjunct2, THEN conjunct2, THEN conjunct2,
                   THEN conjunct2, THEN conjunct2, THEN conjunct2, THEN mp, OF flow]
    by (simp only: nth_Cons_0 nth_Cons_numeral nth_Cons_Suc numeral_2_eq_2 One_nat_def diff_numeral_special)
  have needing: "filter (needs_translation ''ja-JP'') ten_messages = ten_messages"
    by code_simp
  have two_groups: "groups_of BATCH ten_messages = [take 8 ten_messages, drop 8 ten_messages]"
    by code_simp
  have r1: "batchTranslate ?rt10 (map original (take 8 ten_messages)) ''ja-JP'' (?api10 0) =
            Inr [''A'', ''B'', ''C'', ''D'', ''E'', ''F'', ''G'', ''H'']"
    by code_simp
  have r2: "batchTranslate ?rt10 (map original (drop 8 ten_messages)) ''ja-JP'' (?api10 (Suc 0)) =
            Inr [''I'', ''J'']"
    by code_simp
  note ten = batch_translation_groups_and_positions
      [where rt = ?rt10 and api = ?api10 and language = "''ja-JP''" and msgs = ten_messages]
  have sent10: "fst (batch_translation ?rt10 ?api10 ''ja-JP'' ten_messages) =
                [map original (take 8 ten_messages), map original (drop 8 ten_messages)]"
    using ten [THEN conjunct1] two_groups
    by (simp add: needing groups_of_map)
  have left10: "snd (batch_translation ?rt10 ?api10 ''ja-JP'' ten_messages) =
                apply_batch (drop 8 ten_messages) ''ja-JP'' [''I'', ''J''] ?first"
    using ten [THEN conjunct2, THEN conjunct2, THEN conjunct2, THEN conjunct2, THEN conjunct1]
    by (simp only: needing two_groups apply_groups.simps r1 r2 sum.case)
  from sent10 left10 have flow10: "batch_translation ?rt10 ?api10 ''ja-JP'' ten_messages =
      ([map original (take 8 ten_messages), map original (drop 8 ten_messages)],
       apply_batch (drop 8 ten_messages) ''ja-JP'' [''I'', ''J''] ?first)"
    by (simp add: prod_eq_iff)
  have texts10: "map (\<lambda>m. getMessageText m ''ja-JP'')
       (apply_batch (drop 8 ten_messages) ''ja-JP'' [''I'', ''J''] ?first) =
     map JStr [''A'', ''B'', ''C'', ''D'', ''E'', ''F'', ''G'', ''H'', ''I'', ''J'']"
    by code_simp
  from sent third other left final flow10 texts10 show ?thesis
    by (intro conjI)
qed

text \<open>
  The claim as stated fails on a group in which two messages have the same id (the
  decoder gives the id \<^verbatim>\<open>''\<close> to every stored message that lacks one): the response
  \<^verbatim>\<open>["A","B"]\<close> to the request for the texts \<open>a\<close> and \<open>b\<close> leaves both messages
  with \<open>A\<close>, and \<open>B\<close> is cached for none.
\<close>

theorem batch_positions_duplicate_id_counterexample:
  \<open>fst (batch_translation
          (sample_runtime\<lparr>JSON_parse := parse_table [(''["A","B"]'', JArr [JStr ''A'', JStr ''B''])]\<rparr>)
          (always (text_body ''["A","B"]'')) ''ja-JP''
          [plain_message [] Assistant ''a'', plain_message [] Assistant ''b''])
     = [[''a'', ''b'']] \<and>
   batchTranslate
          (sample_runtime\<lparr>JSON_parse := parse_table [(''["A","B"]'', JArr [JStr ''A'', JStr ''B''])]\<rparr>)
          [''a'', ''b''] ''ja-JP'' (text_body ''["A","B"]'') = Inr [''A'', ''B''] \<and>
   map (\<lambda>m. (original m, getMessageText m ''ja-JP''))
     (snd (batch_translation
          (sample_runtime\<lparr>JSON_parse := parse_table [(''["A","B"]'', JArr [JStr ''A'', JStr ''B''])]\<rparr>)
          (always (text_body ''["A","B"]'')) ''ja-JP''
          [plain_message [] Assistant ''a'', plain_message [] Assistant ''b'']))
     = [(''a'', JStr ''A''), (''b'', JStr ''A'')]\<close>
  by code_simp
section \<open>The fallback of batchTranslate\<close>










section \<open>The record codec\<close>

lemma object_or_undefined_idem: "object_or_undefined (object_or_undefined v) = object_or_undefined v"
  by (auto simp: object_or_undefined_def split: option.splits json.splits)

lemma array_or_undefined_idem: "array_or_undefined (array_or_undefined v) = array_or_undefined v"
  by (auto simp: array_or_undefined_def split: option.splits json.splits)

lemma decodeMessage_shaped: "decodeMessage rt raw = Inr m \<Longrightarrow> shaped_message m"
  by (auto simp: decodeMessage_def shaped_message_def object_or_undefined_idem array_or_undefined_idem
           split: if_splits sum.splits)

lemma written_finite: "finite_numbers v \<Longrightarrow> written v = v"
proof (induction v)
  case (JNum n)
  then show ?case by (cases n) simp_all
next
  case (JArr xs)
  then have "map written xs = xs"
    by (intro map_idI) (simp add: list_all_iff)
  then show ?case by simp
next
  case (JObj kvs)
  have "map (\<lambda>(k, v). (k, written v)) kvs = kvs"
  proof (rule map_idI)
    fix kv assume kv: "kv \<in> set kvs"
    obtain k v where p: "kv = (k, v)" by (cases kv)
    with kv JObj.prems have "finite_numbers v" by (auto simp: list_all_iff)
    with JObj.IH [OF kv, of v] p have "written v = v" by simp
    with p show "(case kv of (k, v) \<Rightarrow> (k, written v)) = kv" by simp
  qed
  then show ?case by simp
qed simp_all

lemma map_of_optional:
  "finite_member v \<Longrightarrow> map_of (optional k v) k' = (if k' = k then v else None)"
  by (cases v) (simp_all add: optional_def finite_member_def written_finite)

lemma get_prop_object: "get_prop (JObj kvs) k = map_of kvs k"
  by (simp add: get_prop_def)

lemma String_or_empty_string: "String_or_empty rt (Some (JStr s)) = Inr s"
  by (simp add: String_or_empty_def coalesce_def)

lemma role_of_name: "role_of (Some (JStr (role_name r))) = r"
  by (cases r) (simp_all add: role_of_def role_name_def)

lemma date_or_now_toJSON:
  "date_survives rt d \<Longrightarrow> Date_parse rt' = Date_parse rt \<Longrightarrow>
   date_or_now rt' (Some (date_toJSON rt d)) = d"
  by (cases d) (simp_all add: date_survives_def date_or_now_def date_toJSON_def new_Date_def)

lemma encodeMessage_not_null: "encodeMessage rt m \<noteq> JNull"
  by (simp add: encodeMessage_def)

lemma decode_encodeMessage:
  assumes "shaped_message m" and "message_survives rt m" and "Date_parse rt' = Date_parse rt"
  shows "decodeMessage rt' (encodeMessage rt m) = Inr m"
proof -
  let ?e = "encodeMessage rt m"
  from assms(2) have fin: "finite_member (msg_translations m)" "finite_member (weatherData m)"
      "finite_member (sources m)" and d: "date_survives rt (timestamp m)"
    by (simp_all add: message_survives_def)
  have i: "get_prop ?e ''id'' = Some (JStr (msg_id m))"
    by (simp add: encodeMessage_def get_prop_object)
  have ty: "get_prop ?e ''type'' = Some (JStr (role_name (msg_type m)))"
    by (simp add: encodeMessage_def get_prop_object)
  have orig: "get_prop ?e ''original'' = Some (JStr (original m))"
    by (simp add: encodeMessage_def get_prop_object)
  have tr: "get_prop ?e ''translations'' = msg_translations m"
    using fin by (simp add: encodeMessage_def get_prop_object map_add_def map_of_optional split: option.splits)
  have ts: "get_prop ?e ''timestamp'' = Some (date_toJSON rt (timestamp m))"
    using fin by (simp add: encodeMessage_def get_prop_object map_add_def map_of_optional split: option.splits)
  have wd: "get_prop ?e ''weatherData'' = weatherData m"
    using fin by (simp add: encodeMessage_def get_prop_object map_add_def map_of_optional split: option.splits)
  have src: "get_prop ?e ''sources'' = sources m"
    using fin by (simp add: encodeMessage_def get_prop_object map_add_def map_of_optional split: option.splits)
  show ?thesis
    using assms(1) assms(3) d
    by (simp add: decodeMessage_def [of rt' ?e] encodeMessage_not_null i ty orig tr ts wd src
          String_or_empty_string role_of_name date_or_now_toJSON shaped_message_def)
qed

lemma map_raising_all:
  "map_raising f xs = Inr ys \<Longrightarrow> (\<And>x y. f x = Inr y \<Longrightarrow> P y) \<Longrightarrow> list_all P ys"
proof (induction xs arbitrary: ys)
  case Nil
  then show ?case by simp
next
  case (Cons x xs)
  then show ?case
    by (auto split: sum.splits)
qed

lemma map_raising_inverse:
  "(\<And>y. y \<in> set ys \<Longrightarrow> f (g y) = Inr y) \<Longrightarrow> map_raising f (map g ys) = Inr ys"
  by (induction ys) simp_all

lemma string_or_JNull_idem: "string_or_JNull (Some (string_or_JNull v)) = string_or_JNull v"
  by (auto simp: string_or_JNull_def split: option.splits json.splits)

lemma decodeChat_shaped:
  assumes "decodeChat rt raw = Inr c"
  shows "shaped_chat c"
proof -
  from assms obtain msgs where
    m: "map_raising (decodeMessage rt)
          (case get_prop raw ''messages'' of Some (JArr ms) \<Rightarrow> ms | _ \<Rightarrow> []) = Inr msgs"
    and c: "messages c = msgs"
       "meta c = (case object_or_undefined (get_prop raw ''meta'') of
                    Some mt \<Rightarrow> mt | None \<Rightarrow> JObj [(''version'', JNum (Finite 1))])"
       "unsyncedOps c = array_or_undefined (get_prop raw ''unsyncedOps'')"
       "userId c = Some (string_or_JNull (get_prop raw ''userId''))"
    by (auto simp: decodeChat_def split: if_splits sum.splits)
  from m have "list_all shaped_message msgs"
    by (rule map_raising_all) (rule decodeMessage_shaped)
  moreover have "object_or_undefined (Some (meta c)) = Some (meta c)"
    unfolding c by (auto simp: object_or_undefined_def split: option.splits json.splits)
  ultimately show ?thesis
    by (simp add: shaped_chat_def c array_or_undefined_idem string_or_JNull_idem)
qed

lemma encodeChat_not_null: "encodeChat rt c \<noteq> JNull"
  by (simp add: encodeChat_def)

lemma string_or_null_nullable: "string_or_null (Some (nullable_string v)) = v"
  by (cases v) (simp_all add: string_or_null_def nullable_string_def)

lemma written_userId: "written (string_or_JNull v) = string_or_JNull v"
  by (auto simp: string_or_JNull_def split: option.splits json.splits)

lemma decode_encodeChat:
  assumes "shaped_chat c" and "chat_survives rt c" and "Date_parse rt' = Date_parse rt"
  shows "decodeChat rt' (encodeChat rt c) = Inr c"
proof -
  let ?e = "encodeChat rt c"
  from assms(2) have fin: "finite_numbers (meta c)" "finite_member (unsyncedOps c)"
    by (simp_all add: chat_survives_def)
  from assms(1) have uid: "userId c = Some (string_or_JNull (userId c))"
    by (simp add: shaped_chat_def)
  have ms: "map_raising (decodeMessage rt') (map (encodeMessage rt) (messages c)) = Inr (messages c)"
  proof (rule map_raising_inverse)
    fix m assume "m \<in> set (messages c)"
    with assms(1) assms(2) have "shaped_message m" "message_survives rt m"
      by (auto simp: shaped_chat_def chat_survives_def list_all_iff)
    then show "decodeMessage rt' (encodeMessage rt m) = Inr m"
      using assms(3) by (rule decode_encodeMessage)
  qed
  have ou: "optional ''userId'' (userId c) = [(''userId'', string_or_JNull (userId c))]"
    by (subst uid) (simp add: optional_def written_userId)
  have f1: "get_prop ?e ''id'' = Some (JStr (chat_id c))"
    by (simp add: encodeChat_def get_prop_object)
  have f2: "get_prop ?e ''userId'' = Some (string_or_JNull (userId c))"
    by (simp add: encodeChat_def get_prop_object ou)
  have f3: "get_prop ?e ''title'' = Some (JStr (title c))"
    by (simp add: encodeChat_def get_prop_object ou)
  have f4: "get_prop ?e ''snippet'' = Some (JStr (snippet c))"
    by (simp add: encodeChat_def get_prop_object ou)
  have f5: "get_prop ?e ''city'' = Some (nullable_string (city c))"
    by (simp add: encodeChat_def get_prop_object ou)
  have f6: "get_prop ?e ''messages'' = Some (JArr (map (encodeMessage rt) (messages c)))"
    by (simp add: encodeChat_def get_prop_object ou)
  have f7: "get_prop ?e ''meta'' = Some (meta c)"
    using fin(1) by (simp add: encodeChat_def get_prop_object ou written_finite)
  have f8: "get_prop ?e ''createdAt'' = Some (date_toJSON rt (createdAt c))"
    by (simp add: encodeChat_def get_prop_object ou)
  have f9: "get_prop ?e ''updatedAt'' = Some (date_toJSON rt (updatedAt c))"
    by (simp add: encodeChat_def get_prop_object ou)
  have f10: "get_prop ?e ''lastSyncedAt'' =
             Some (case lastSyncedAt c of Some d \<Rightarrow> date_toJSON rt d | None \<Rightarrow> JNull)"
    by (simp add: encodeChat_def get_prop_object ou)
  have f11: "get_prop ?e ''synced'' = Some (JBool (synced c))"
    by (simp add: encodeChat_def get_prop_object ou)
  have f12: "get_prop ?e ''unsyncedOps'' = unsyncedOps c"
    using fin(2)
    by (simp add: encodeChat_def get_prop_object ou map_add_def map_of_optional split: option.splits)
  have ls: "(case (case lastSyncedAt c of Some d \<Rightarrow> date_toJSON rt d | None \<Rightarrow> JNull) of
               JStr s \<Rightarrow> Some (new_Date rt' s) | _ \<Rightarrow> None) = lastSyncedAt c"
  proof (cases "lastSyncedAt c")
    case None
    then show ?thesis by simp
  next
    case (Some d)
    with assms(2) have "date_survives rt d" by (simp add: chat_survives_def)
    with Some assms(3) show ?thesis
      by (cases d) (simp_all add: date_survives_def date_toJSON_def new_Date_def)
  qed
  have mt: "(case object_or_undefined (Some (meta c)) of
               Some mt \<Rightarrow> mt | None \<Rightarrow> JObj [(''version'', JNum (Finite 1))]) = meta c"
    using assms(1) by (simp add: shaped_chat_def)
  have d1: "date_or_now rt' (Some (date_toJSON rt (createdAt c))) = createdAt c"
    using assms(2) assms(3) by (simp add: date_or_now_toJSON chat_survives_def)
  have d2: "date_or_now rt' (Some (date_toJSON rt (updatedAt c))) = updatedAt c"
    using assms(2) assms(3) by (simp add: date_or_now_toJSON chat_survives_def)
  have u: "array_or_undefined (unsyncedOps c) = unsyncedOps c"
    using assms(1) by (simp add: shaped_chat_def)
  have "decodeChat rt' ?e =
        Inr (c\<lparr>userId := Some (string_or_JNull (Some (string_or_JNull (userId c))))\<rparr>)"
    by (simp add: decodeChat_def [of rt' ?e] encodeChat_not_null f1 f2 f3 f4 f5 f6 f7 f8 f9 f10 f11 f12
          ms String_or_empty_string string_or_null_nullable ls mt d1 d2 u)
  also have "c\<lparr>userId := Some (string_or_JNull (Some (string_or_JNull (userId c))))\<rparr> = c"
    using uid by (simp add: string_or_JNull_idem)
  finally show ?thesis .
qed

lemma decode_shaped: "decode rt parsed = Inr x \<Longrightarrow> list_all shaped_chat x"
  by (cases parsed) (auto simp: decode_def intro: map_raising_all decodeChat_shaped)

lemma load_shaped: "list_all shaped_chat (loadChatsFromStorage rt st)"
  by (auto simp: loadChatsFromStorage_def decode_shaped split: slot.splits sum.splits)

lemma decode_encode:
  assumes "list_all shaped_chat x" and "list_all (chat_survives rt) x"
    and "Date_parse rt' = Date_parse rt"
  shows "decode rt' (encode rt x) = Inr x"
  unfolding decode_def encode_def
  using assms by (auto simp: list_all_iff intro!: map_raising_inverse decode_encodeChat)

text \<open>
  What holds of claim C5 on the code: the load returns a list on every input, and an
  element that decodes gets the defaults for the members it lacks.
\<close>

lemma String_or_empty_missing: "String_or_empty rt None = Inr []"
  by (simp add: String_or_empty_def coalesce_def)

lemma date_or_now_default: "(\<forall>s. v \<noteq> Some (JStr s)) \<Longrightarrow> date_or_now rt v = Date (Date_now rt)"
  by (simp add: date_or_now_def split: option.splits json.splits)

lemma role_of_default:
  "v \<noteq> Some (JStr ''user'') \<Longrightarrow> v \<noteq> Some (JStr ''assistant'') \<Longrightarrow> role_of v = System"
  by (simp add: role_of_def)

lemma decodeMessage_fields:
  assumes "decodeMessage rt raw = Inr m"
  shows "String_or_empty rt (get_prop raw ''id'') = Inr (msg_id m)"
    and "String_or_empty rt (get_prop raw ''original'') = Inr (original m)"
    and "msg_type m = role_of (get_prop raw ''type'')"
    and "timestamp m = date_or_now rt (get_prop raw ''timestamp'')"
  using assms
  by (auto simp: decodeMessage_def split: if_splits sum.splits)

lemma decodeMessage_defaults:
  assumes "decodeMessage rt raw = Inr m"
  shows "(get_prop raw ''id'' = None \<longrightarrow> msg_id m = []) \<and>
         (get_prop raw ''original'' = None \<longrightarrow> original m = []) \<and>
         ((\<forall>s. get_prop raw ''timestamp'' \<noteq> Some (JStr s)) \<longrightarrow> timestamp m = Date (Date_now rt)) \<and>
         (get_prop raw ''type'' \<noteq> Some (JStr ''user'') \<and> get_prop raw ''type'' \<noteq> Some (JStr ''assistant'') \<longrightarrow>
            msg_type m = System)"
proof (intro conjI impI)
  assume "get_prop raw ''id'' = None"
  with decodeMessage_fields(1) [OF assms] show "msg_id m = []"
    by (simp add: String_or_empty_missing)
next
  assume "get_prop raw ''original'' = None"
  with decodeMessage_fields(2) [OF assms] show "original m = []"
    by (simp add: String_or_empty_missing)
next
  assume "\<forall>s. get_prop raw ''timestamp'' \<noteq> Some (JStr s)"
  with decodeMessage_fields(4) [OF assms] show "timestamp m = Date (Date_now rt)"
    by (simp add: date_or_now_default)
next
  assume "get_prop raw ''type'' \<noteq> Some (JStr ''user'') \<and> get_prop raw ''type'' \<noteq> Some (JStr ''assistant'')"
  with decodeMessage_fields(3) [OF assms] show "msg_type m = System"
    by (simp add: role_of_default)
qed

lemma decodeChat_fields:
  assumes "decodeChat rt raw = Inr c"
  shows "String_or_empty rt (get_prop raw ''id'') = Inr (chat_id c)"
    and "String_or_empty rt (get_prop raw ''title'') = Inr (title c)"
    and "String_or_empty rt (get_prop raw ''snippet'') = Inr (snippet c)"
    and "createdAt c = date_or_now rt (get_prop raw ''createdAt'')"
    and "updatedAt c = date_or_now rt (get_prop raw ''updatedAt'')"
  using assms
  by (auto simp: decodeChat_def split: if_splits sum.splits)

lemma decodeChat_defaults:
  assumes "decodeChat rt raw = Inr c"
  shows "(get_prop raw ''id'' = None \<longrightarrow> chat_id c = []) \<and>
         (get_prop raw ''title'' = None \<longrightarrow> title c = []) \<and>
         (get_prop raw ''snippet'' = None \<longrightarrow> snippet c = []) \<and>
         ((\<forall>s. get_prop raw ''createdAt'' \<noteq> Some (JStr s)) \<longrightarrow> createdAt c = Date (Date_now rt)) \<and>
         ((\<forall>s. get_prop raw ''updatedAt'' \<noteq> Some (JStr s)) \<longrightarrow> updatedAt c = Date (Date_now rt))"
proof (intro conjI impI)
  assume "get_prop raw ''id'' = None"
  with decodeChat_fields(1) [OF assms] show "chat_id c = []"
    by (simp add: String_or_empty_missing)
next
  assume "get_prop raw ''title'' = None"
  with decodeChat_fields(2) [OF assms] show "title c = []"
    by (simp add: String_or_empty_missing)
next
  assume "get_prop raw ''snippet'' = None"
  with decodeChat_fields(3) [OF assms] show "snippet c = []"
    by (simp add: String_or_empty_missing)
next
  assume "\<forall>s. get_prop raw ''createdAt'' \<noteq> Some (JStr s)"
  with decodeChat_fields(4) [OF assms] show "createdAt c = Date (Date_now rt)"
    by (simp add: date_or_now_default)
next
  assume "\<forall>s. get_prop raw ''updatedAt'' \<noteq> Some (JStr s)"
  with decodeChat_fields(5) [OF assms] show "updatedAt c = Date (Date_now rt)"
    by (simp add: date_or_now_default)
qed

text \<open>
  Claim C5 fails on the code. The decoder reads the members of every array element
  without testing the element, and reading a member of null raises; the
  \<^verbatim>\<open>catch\<close> around the whole load then returns the empty list. One null element
  in the stored array, or one null in the \<^verbatim>\<open>messages\<close> of one record, loses every
  record, including those that decode on their own.
\<close>

theorem load_abandoned_on_null_entry:
  "loadChatsFromStorage sample_runtime (browser (Stored (JArr [stored_paris, JNull]))) = [] \<and>
   loadChatsFromStorage sample_runtime
     (browser (Stored (JArr [stored_paris, JObj [(''id'', JStr ''x''), (''messages'', JArr [JNull])]]))) = [] \<and>
   map title (loadChatsFromStorage sample_runtime (browser (Stored (JArr [stored_paris])))) =
     [''Weather in Paris'']"
  by code_simp

text \<open>
  Claim C7, as the code has it. Let \<open>x\<close> be what a load returns. If every date in
  \<open>x\<close> is valid (and the runtime reads back the ISO text it writes for it), and every
  number in the members the decoder passes through (\<^verbatim>\<open>meta\<close>, \<^verbatim>\<open>unsyncedOps\<close>,
  and the \<^verbatim>\<open>translations\<close>, \<^verbatim>\<open>weatherData\<close> and \<^verbatim>\<open>sources\<close> of every message) is
  finite and not negative zero, then writing \<open>x\<close> with \<^verbatim>\<open>JSON.stringify\<close> and loading
  again, at any later time, returns \<open>x\<close>, equal in every field.
\<close>

theorem decode_encode_roundtrip:
  assumes "x = loadChatsFromStorage rt st" and "list_all (chat_survives rt) x"
  shows "loadChatsFromStorage (rt\<lparr>Date_now := later\<rparr>) (st\<lparr>chats_slot := Stored (encode rt x)\<rparr>) = x"
proof (cases "has_window st")
  case False
  with assms(1) show ?thesis by (simp add: loadChatsFromStorage_def)
next
  case True
  have "decode (rt\<lparr>Date_now := later\<rparr>) (encode rt x) = Inr x"
    using load_shaped [of rt st] assms by (intro decode_encode) simp_all
  with True show ?thesis by (simp add: loadChatsFromStorage_def)
qed

theorem decode_encode_roundtrip_witness:
  "list_all (chat_survives sample_runtime)
     (loadChatsFromStorage sample_runtime (browser (Stored (JArr [stored_paris, stored_tokyo])))) \<and>
   length (loadChatsFromStorage sample_runtime (browser (Stored (JArr [stored_paris, stored_tokyo])))) = 2 \<and>
   loadChatsFromStorage (sample_runtime\<lparr>Date_now := 1714557999999\<rparr>)
     ((browser (Stored (JArr [stored_paris, stored_tokyo])))
        \<lparr>chats_slot := Stored (encode sample_runtime
            (loadChatsFromStorage sample_runtime (browser (Stored (JArr [stored_paris, stored_tokyo])))))\<rparr>) =
   loadChatsFromStorage sample_runtime (browser (Stored (JArr [stored_paris, stored_tokyo])))"
proof -
  let ?st = "browser (Stored (JArr [stored_paris, stored_tokyo]))"
  have valid: "list_all (chat_survives sample_runtime) (loadChatsFromStorage sample_runtime ?st)"
    by code_simp
  have two: "length (loadChatsFromStorage sample_runtime ?st) = 2"
    by code_simp
  from decode_encode_roundtrip [OF refl valid, of 1714557999999] valid two
  show ?thesis by simp
qed

text \<open>
  The claim as stated fails on a record whose stored \<^verbatim>\<open>createdAt\<close> is a string that
  is not a date. The load gives it an invalid date; \<^verbatim>\<open>JSON.stringify\<close> writes an
  invalid date as null; the next load reads null as a missing date and puts the current
  time in its place. It also fails on a record whose stored \<^verbatim>\<open>meta\<close> holds the number
  \<^verbatim>\<open>1e999\<close>: the load keeps it as \<^verbatim>\<open>Infinity\<close>, which is written as null.
\<close>

theorem invalid_date_roundtrip_counterexample:
  "map createdAt (loadChatsFromStorage sample_runtime (browser (Stored (JArr [stored_undated])))) =
     [InvalidDate] \<and>
   map createdAt
     (loadChatsFromStorage sample_runtime
        (browser (Stored (encode sample_runtime
           (loadChatsFromStorage sample_runtime (browser (Stored (JArr [stored_undated])))))))) =
     [Date 1714557660000] \<and>
   map meta (loadChatsFromStorage sample_runtime (browser (Stored (JArr [stored_overflow])))) =
     [JObj [(''version'', JNum PlusInfinity)]] \<and>
   map meta
     (loadChatsFromStorage sample_runtime
        (browser (Stored (encode sample_runtime
           (loadChatsFromStorage sample_runtime (browser (Stored (JArr [stored_overflow])))))))) =
     [JObj [(''version'', JNull)]]"
  by code_simp

section \<open>The conversation store\<close>

lemma load_without_window: "\<not> has_window st \<Longrightarrow> loadChatsFromStorage rt st = []"
  by (simp add: loadChatsFromStorage_def)

lemma autoSaveChat_saved:
  assumes "has_window st" and "setItem_ok st" and "filter (\<lambda>m. msg_type m = User) msgs \<noteq> []"
  shows "chats_slot (snd (autoSaveChat rt st msgs)) = Stored (encode rt (fst (autoSaveChat rt st msgs)))"
  using assms by (simp add: autoSaveChat_def Let_def)

lemma autoSaveChat_existing:
  assumes "has_window st" and "setItem_ok st" and "filter (\<lambda>m. msg_type m = User) msgs \<noteq> []"
    and "findIndex (\<lambda>c. title c = getChatTitle msgs) (loadChatsFromStorage rt st) = Some i"
  shows "fst (autoSaveChat rt st msgs) =
         (loadChatsFromStorage rt st)[i :=
            \<lparr>chat_id = chat_id (loadChatsFromStorage rt st ! i),
             userId = None,
             title = getChatTitle msgs,
             snippet = getChatSnippet msgs,
             city = cityMatch msgs,
             messages = msgs,
             meta = JObj [(''device'', JStr (case userAgent rt of Some ua \<Rightarrow> take 50 ua | None \<Rightarrow> ''unknown'')),
                          (''version'', JNum (Finite 1)),
                          (''truncated'', JBool (stringify_length rt (JArr (map (encodeMessage rt) msgs)) > MAX_MESSAGE_SIZE))],
             createdAt = createdAt (loadChatsFromStorage rt st ! i),
             updatedAt = Date (Date_now rt),
             lastSyncedAt = None,
             synced = False,
             unsyncedOps = None\<rparr>]"
  using assms by (simp add: autoSaveChat_def Let_def)

lemma autoSaveChat_new:
  assumes "has_window st" and "setItem_ok st" and "filter (\<lambda>m. msg_type m = User) msgs \<noteq> []"
    and "findIndex (\<lambda>c. title c = getChatTitle msgs) (loadChatsFromStorage rt st) = None"
  shows "fst (autoSaveChat rt st msgs) =
            \<lparr>chat_id = ''local_'' @ show_int (Date_now rt),
             userId = None,
             title = getChatTitle msgs,
             snippet = getChatSnippet msgs,
             city = cityMatch msgs,
             messages = msgs,
             meta = JObj [(''device'', JStr (case userAgent rt of Some ua \<Rightarrow> take 50 ua | None \<Rightarrow> ''unknown'')),
                          (''version'', JNum (Finite 1)),
                          (''truncated'', JBool (stringify_length rt (JArr (map (encodeMessage rt) msgs)) > MAX_MESSAGE_SIZE))],
             createdAt = Date (Date_now rt),
             updatedAt = Date (Date_now rt),
             lastSyncedAt = None,
             synced = False,
             unsyncedOps = None\<rparr> # loadChatsFromStorage rt st"
  using assms by (simp add: autoSaveChat_def Let_def)

lemma autoSaveChat_new_userId:
  assumes "has_window st \<and> setItem_ok st \<and> filter (\<lambda>m. msg_type m = User) msgs \<noteq> []"
    and "\<forall>c \<in> set (loadChatsFromStorage rt st). title c \<noteq> getChatTitle msgs"
  shows "get_prop (encodeChat rt (hd (fst (autoSaveChat rt st msgs)))) ''userId'' = None"
proof -
  from assms(2) have "findIndex (\<lambda>c. title c = getChatTitle msgs) (loadChatsFromStorage rt st) = None"
    by (simp add: findIndex_None)
  with assms(1) show ?thesis
    by (simp add: autoSaveChat_new encodeChat_def optional_def get_prop_def)
qed

lemma autoSaveChat_not_saved:
  "filter (\<lambda>m. msg_type m = User) msgs = [] \<or> \<not> setItem_ok st \<Longrightarrow>
   autoSaveChat rt st msgs = (loadChatsFromStorage rt st, st)"
  by (auto simp: autoSaveChat_def Let_def load_without_window)

text \<open>
  Claim C6, as the code has it. The save is made only for a message list that holds a
  user message, in a browser whose storage accepts the write. Then: if \<open>i\<close> is the
  first stored conversation whose title is the computed one, the list keeps its length,
  and conversation \<open>i\<close> keeps its id and \<^verbatim>\<open>createdAt\<close> and gets the new messages,
  snippet and \<^verbatim>\<open>updatedAt\<close>; if no stored conversation has the computed title, a new
  conversation is put in front of the stored ones; the list returned is the list
  written. A message list without a user message is never saved, whatever the store
  holds: the stored list is returned and storage is left as it was. The same happens
  when the write is refused, and without a browser the result is the empty list.
\<close>

theorem autoSaveChat_upsert:
  "(has_window st \<and> setItem_ok st \<and> filter (\<lambda>m. msg_type m = User) msgs \<noteq> [] \<longrightarrow>
      (findIndex (\<lambda>c. title c = getChatTitle msgs) (loadChatsFromStorage rt st) = Some i \<longrightarrow>
            length (fst (autoSaveChat rt st msgs)) = length (loadChatsFromStorage rt st) \<and>
            chat_id (fst (autoSaveChat rt st msgs) ! i) = chat_id (loadChatsFromStorage rt st ! i) \<and>
            createdAt (fst (autoSaveChat rt st msgs) ! i) = createdAt (loadChatsFromStorage rt st ! i) \<and>
            title (fst (autoSaveChat rt st msgs) ! i) = getChatTitle msgs \<and>
            messages (fst (autoSaveChat rt st msgs) ! i) = msgs \<and>
            snippet (fst (autoSaveChat rt st msgs) ! i) = getChatSnippet msgs \<and>
            updatedAt (fst (autoSaveChat rt st msgs) ! i) = Date (Date_now rt)) \<and>
      ((\<forall>c \<in> set (loadChatsFromStorage rt st). title c \<noteq> getChatTitle msgs) \<longrightarrow>
            tl (fst (autoSaveChat rt st msgs)) = loadChatsFromStorage rt st \<and>
            length (fst (autoSaveChat rt st msgs)) = Suc (length (loadChatsFromStorage rt st)) \<and>
            title (hd (fst (autoSaveChat rt st msgs))) = getChatTitle msgs \<and>
            messages (hd (fst (autoSaveChat rt st msgs))) = msgs \<and>
            snippet (hd (fst (autoSaveChat rt st msgs))) = getChatSnippet msgs \<and>
            createdAt (hd (fst (autoSaveChat rt st msgs))) = Date (Date_now rt) \<and>
            updatedAt (hd (fst (autoSaveChat rt st msgs))) = Date (Date_now rt)) \<and>
      chats_slot (snd (autoSaveChat rt st msgs)) = Stored (encode rt (fst (autoSaveChat rt st msgs)))) \<and>
   (filter (\<lambda>m. msg_type m = User) msgs = [] \<longrightarrow>
      autoSaveChat rt st msgs = (loadChatsFromStorage rt st, st)) \<and>
   (\<not> setItem_ok st \<longrightarrow> autoSaveChat rt st msgs = (loadChatsFromStorage rt st, st)) \<and>
   (\<not> has_window st \<longrightarrow> autoSaveChat rt st msgs = ([], st))"
proof (intro conjI impI)
  assume env: "has_window st \<and> setItem_ok st \<and> filter (\<lambda>m. msg_type m = User) msgs \<noteq> []"
  assume idx: "findIndex (\<lambda>c. title c = getChatTitle msgs) (loadChatsFromStorage rt st) = Some i"
  then have i: "i < length (loadChatsFromStorage rt st)" by (simp add: findIndex_Some)
  from env have w: "has_window st" and ok: "setItem_ok st"
    and u: "filter (\<lambda>m. msg_type m = User) msgs \<noteq> []" by simp_all
  note e = autoSaveChat_existing [OF w ok u idx]
  show "length (fst (autoSaveChat rt st msgs)) = length (loadChatsFromStorage rt st)"
    by (simp add: e)
  show "chat_id (fst (autoSaveChat rt st msgs) ! i) = chat_id (loadChatsFromStorage rt st ! i)"
    using i by (simp add: e)
  show "createdAt (fst (autoSaveChat rt st msgs) ! i) = createdAt (loadChatsFromStorage rt st ! i)"
    using i by (simp add: e)
  show "title (fst (autoSaveChat rt st msgs) ! i) = getChatTitle msgs"
    using i by (simp add: e)
  show "messages (fst (autoSaveChat rt st msgs) ! i) = msgs"
    using i by (simp add: e)
  show "snippet (fst (autoSaveChat rt st msgs) ! i) = getChatSnippet msgs"
    using i by (simp add: e)
  show "updatedAt (fst (autoSaveChat rt st msgs) ! i) = Date (Date_now rt)"
    using i by (simp add: e)
next
  assume env: "has_window st \<and> setItem_ok st \<and> filter (\<lambda>m. msg_type m = User) msgs \<noteq> []"
  assume "\<forall>c \<in> set (loadChatsFromStorage rt st). title c \<noteq> getChatTitle msgs"
  then have idx: "findIndex (\<lambda>c. title c = getChatTitle msgs) (loadChatsFromStorage rt st) = None"
    by (simp add: findIndex_None)
  from env have w: "has_window st" and ok: "setItem_ok st"
    and u: "filter (\<lambda>m. msg_type m = User) msgs \<noteq> []" by simp_all
  note n = autoSaveChat_new [OF w ok u idx]
  show "tl (fst (autoSaveChat rt st msgs)) = loadChatsFromStorage rt st" by (simp add: n)
  show "length (fst (autoSaveChat rt st msgs)) = Suc (length (loadChatsFromStorage rt st))" by (simp add: n)
  show "title (hd (fst (autoSaveChat rt st msgs))) = getChatTitle msgs" by (simp add: n)
  show "messages (hd (fst (autoSaveChat rt st msgs))) = msgs" by (simp add: n)
  show "snippet (hd (fst (autoSaveChat rt st msgs))) = getChatSnippet msgs" by (simp add: n)
  show "createdAt (hd (fst (autoSaveChat rt st msgs))) = Date (Date_now rt)" by (simp add: n)
  show "updatedAt (hd (fst (autoSaveChat rt st msgs))) = Date (Date_now rt)" by (simp add: n)
next
  assume "has_window st \<and> setItem_ok st \<and> filter (\<lambda>m. msg_type m = User) msgs \<noteq> []"
  then show "chats_slot (snd (autoSaveChat rt st msgs)) = Stored (encode rt (fst (autoSaveChat rt st msgs)))"
    by (simp add: autoSaveChat_saved)
next
  assume "filter (\<lambda>m. msg_type m = User) msgs = []"
  then show "autoSaveChat rt st msgs = (loadChatsFromStorage rt st, st)"
    by (simp add: autoSaveChat_not_saved)
next
  assume "\<not> setItem_ok st"
  then show "autoSaveChat rt st msgs = (loadChatsFromStorage rt st, st)"
    by (simp add: autoSaveChat_not_saved)
next
  assume "\<not> has_window st"
  then show "autoSaveChat rt st msgs = ([], st)"
    by (simp add: autoSaveChat_def)
qed

text \<open>
  Saves into a store that holds the conversations on Tokyo and on Paris: one whose first
  user message is the title of the second conversation, one with a new title, one
  without a user message, and one that the storage refuses. The record written for a new
  conversation has no \<^verbatim>\<open>userId\<close> member.
\<close>

theorem autoSaveChat_upsert_witness:
  "length (fst (autoSaveChat sample_runtime (browser (Stored (JArr [stored_tokyo, stored_paris])))
      [plain_message ''10'' User ''Weather in Paris'', plain_message ''11'' Assistant ''Mild and sunny''])) = 2 \<and>
   chat_id (fst (autoSaveChat sample_runtime (browser (Stored (JArr [stored_tokyo, stored_paris])))
      [plain_message ''10'' User ''Weather in Paris'', plain_message ''11'' Assistant ''Mild and sunny'']) ! 1) =
     ''local_1714557600000'' \<and>
   createdAt (fst (autoSaveChat sample_runtime (browser (Stored (JArr [stored_tokyo, stored_paris])))
      [plain_message ''10'' User ''Weather in Paris'', plain_message ''11'' Assistant ''Mild and sunny'']) ! 1) =
     Date 1714557600000 \<and>
   snippet (fst (autoSaveChat sample_runtime (browser (Stored (JArr [stored_tokyo, stored_paris])))
      [plain_message ''10'' User ''Weather in Paris'', plain_message ''11'' Assistant ''Mild and sunny'']) ! 1) =
     ''Mild and sunny'' \<and>
   updatedAt (fst (autoSaveChat sample_runtime (browser (Stored (JArr [stored_tokyo, stored_paris])))
      [plain_message ''10'' User ''Weather in Paris'', plain_message ''11'' Assistant ''Mild and sunny'']) ! 1) =
     Date 1714557660000 \<and>
   tl (fst (autoSaveChat sample_runtime (browser (Stored (JArr [stored_tokyo, stored_paris])))
      [plain_message ''12'' User ''Snow in Oslo''])) =
     loadChatsFromStorage sample_runtime (browser (Stored (JArr [stored_tokyo, stored_paris]))) \<and>
   title (hd (fst (autoSaveChat sample_runtime (browser (Stored (JArr [stored_tokyo, stored_paris])))
      [plain_message ''12'' User ''Snow in Oslo'']))) = ''Snow in Oslo'' \<and>
   chats_slot (snd (autoSaveChat sample_runtime (browser (Stored (JArr [stored_tokyo, stored_paris])))
      [plain_message ''12'' User ''Snow in Oslo''])) =
     Stored (encode sample_runtime
       (fst (autoSaveChat sample_runtime (browser (Stored (JArr [stored_tokyo, stored_paris])))
          [plain_message ''12'' User ''Snow in Oslo'']))) \<and>
   get_prop (encodeChat sample_runtime
       (hd (fst (autoSaveChat sample_runtime (browser (Stored (JArr [stored_tokyo, stored_paris])))
          [plain_message ''12'' User ''Snow in Oslo''])))) ''userId'' = None \<and>
   autoSaveChat sample_runtime (browser (Stored (JArr [stored_tokyo, stored_paris])))
      [plain_message ''13'' Assistant ''Hello''] =
     (loadChatsFromStorage sample_runtime (browser (Stored (JArr [stored_tokyo, stored_paris]))),
      browser (Stored (JArr [stored_tokyo, stored_paris]))) \<and>
   length (loadChatsFromStorage sample_runtime (browser (Stored (JArr [stored_tokyo, stored_paris])))) = 2 \<and>
   autoSaveChat sample_runtime ((browser (Stored (JArr [stored_tokyo, stored_paris])))\<lparr>setItem_ok := False\<rparr>)
      [plain_message ''12'' User ''Snow in Oslo''] =
     (loadChatsFromStorage sample_runtime ((browser (Stored (JArr [stored_tokyo, stored_paris])))\<lparr>setItem_ok := False\<rparr>),
      (browser (Stored (JArr [stored_tokyo, stored_paris])))\<lparr>setItem_ok := False\<rparr>) \<and>
   autoSaveChat sample_runtime ((browser (Stored (JArr [stored_tokyo, stored_paris])))\<lparr>has_window := False\<rparr>)
      [plain_message ''12'' User ''Snow in Oslo''] =
     ([], (browser (Stored (JArr [stored_tokyo, stored_paris])))\<lparr>has_window := False\<rparr>)"
proof -
  let ?st = "browser (Stored (JArr [stored_tokyo, stored_paris]))"
  let ?paris = "[plain_message ''10'' User ''Weather in Paris'', plain_message ''11'' Assistant ''Mild and sunny'']"
  let ?oslo = "[plain_message ''12'' User ''Snow in Oslo'']"
  let ?hello = "[plain_message ''13'' Assistant ''Hello'']"
  have env1: "has_window ?st \<and> setItem_ok ?st \<and> filter (\<lambda>m. msg_type m = User) ?paris \<noteq> []"
    and env2: "has_window ?st \<and> setItem_ok ?st \<and> filter (\<lambda>m. msg_type m = User) ?oslo \<noteq> []"
    by (simp_all add: browser_def plain_message_def)
  have nouser: "filter (\<lambda>m. msg_type m = User) ?hello = []"
    by (simp add: plain_message_def)
  have refused: "\<not> setItem_ok (?st\<lparr>setItem_ok := False\<rparr>)"
    and nowindow: "\<not> has_window (?st\<lparr>has_window := False\<rparr>)"
    by simp_all
  have found: "findIndex (\<lambda>c. title c = getChatTitle ?paris) (loadChatsFromStorage sample_runtime ?st) = Some 1"
    by code_simp
  have fresh: "\<forall>c \<in> set (loadChatsFromStorage sample_runtime ?st). title c \<noteq> getChatTitle ?oslo"
    by code_simp
  have stored: "chat_id (loadChatsFromStorage sample_runtime ?st ! 1) = ''local_1714557600000''"
    "createdAt (loadChatsFromStorage sample_runtime ?st ! 1) = Date 1714557600000"
    by code_simp+
  have computed: "getChatSnippet ?paris = ''Mild and sunny''" "getChatTitle ?oslo = ''Snow in Oslo''"
    "Date_now sample_runtime = 1714557660000"
    by code_simp+
  have two: "length (loadChatsFromStorage sample_runtime ?st) = 2"
    by code_simp
  have no_userId: "get_prop (encodeChat sample_runtime (hd (fst (autoSaveChat sample_runtime ?st ?oslo)))) ''userId'' = None"
    using env2 fresh by (rule autoSaveChat_new_userId)
  note saved1 = autoSaveChat_upsert [where rt = sample_runtime and st = ?st and msgs = ?paris and i = 1,
      THEN conjunct1, THEN mp, OF env1]
  note saved2 = autoSaveChat_upsert [where rt = sample_runtime and st = ?st and msgs = ?oslo and i = 0,
      THEN conjunct1, THEN mp, OF env2]
  from saved1 [THEN conjunct1, THEN mp, OF found]
  have existing:
    "length (fst (autoSaveChat sample_runtime ?st ?paris)) = length (loadChatsFromStorage sample_runtime ?st)"
    "chat_id (fst (autoSaveChat sample_runtime ?st ?paris) ! 1) = chat_id (loadChatsFromStorage sample_runtime ?st ! 1)"
    "createdAt (fst (autoSaveChat sample_runtime ?st ?paris) ! 1) = createdAt (loadChatsFromStorage sample_runtime ?st ! 1)"
    "snippet (fst (autoSaveChat sample_runtime ?st ?paris) ! 1) = getChatSnippet ?paris"
    "updatedAt (fst (autoSaveChat sample_runtime ?st ?paris) ! 1) = Date (Date_now sample_runtime)"
    by blast+
  from saved2 [THEN conjunct2, THEN conjunct1, THEN mp, OF fresh]
  have new:
    "tl (fst (autoSaveChat sample_runtime ?st ?oslo)) = loadChatsFromStorage sample_runtime ?st"
    "title (hd (fst (autoSaveChat sample_runtime ?st ?oslo))) = getChatTitle ?oslo"
    by blast+
  note slot = saved2 [THEN conjunct2, THEN conjunct2]
  note skipped = autoSaveChat_upsert [where rt = sample_runtime and st = ?st and msgs = ?hello,
      THEN conjunct2, THEN conjunct1, THEN mp, OF nouser]
  note failed = autoSaveChat_upsert [where rt = sample_runtime and st = "?st\<lparr>setItem_ok := False\<rparr>"
      and msgs = ?oslo, THEN conjunct2, THEN conjunct2, THEN conjunct1, THEN mp, OF refused]
  note server = autoSaveChat_upsert [where rt = sample_runtime and st = "?st\<lparr>has_window := False\<rparr>"
      and msgs = ?oslo, THEN conjunct2, THEN conjunct2, THEN conjunct2, THEN mp, OF nowindow]
  have head: "length (fst (autoSaveChat sample_runtime ?st ?paris)) = 2"
    "chat_id (fst (autoSaveChat sample_runtime ?st ?paris) ! 1) = ''local_1714557600000''"
    "createdAt (fst (autoSaveChat sample_runtime ?st ?paris) ! 1) = Date 1714557600000"
    "snippet (fst (autoSaveChat sample_runtime ?st ?paris) ! 1) = ''Mild and sunny''"
    "updatedAt (fst (autoSaveChat sample_runtime ?st ?paris) ! 1) = Date 1714557660000"
    "title (hd (fst (autoSaveChat sample_runtime ?st ?oslo))) = ''Snow in Oslo''"
    using existing new(2) stored computed two by simp_all
  from head new(1) slot no_userId skipped two failed server show ?thesis
    by (intro conjI)
qed

text \<open>
  The claim as stated fails on a message list without a user message: the computed title
  is \<^verbatim>\<open>Untitled Chat\<close>, no stored conversation has it, and no conversation is created.
\<close>

theorem autoSaveChat_without_user_message_counterexample:
  "getChatTitle [plain_message ''2'' Assistant ''Hello''] = ''Untitled Chat'' \<and>
   map title (loadChatsFromStorage sample_runtime (browser (Stored (JArr [stored_paris])))) =
     [''Weather in Paris''] \<and>
   map title (fst (autoSaveChat sample_runtime (browser (Stored (JArr [stored_paris])))
     [plain_message ''2'' Assistant ''Hello''])) = [''Weather in Paris''] \<and>
   snd (autoSaveChat sample_runtime (browser (Stored (JArr [stored_paris])))
     [plain_message ''2'' Assistant ''Hello'']) = browser (Stored (JArr [stored_paris]))"
proof -
  have "getChatTitle [plain_message ''2'' Assistant ''Hello''] = ''Untitled Chat'' \<and>
   map title (loadChatsFromStorage sample_runtime (browser (Stored (JArr [stored_paris])))) =
     [''Weather in Paris''] \<and>
   map title (fst (autoSaveChat sample_runtime (browser (Stored (JArr [stored_paris])))
     [plain_message ''2'' Assistant ''Hello''])) = [''Weather in Paris'']"
    by code_simp
  moreover have "snd (autoSaveChat sample_runtime (browser (Stored (JArr [stored_paris])))
     [plain_message ''2'' Assistant ''Hello'']) = browser (Stored (JArr [stored_paris]))"
    by (simp add: autoSaveChat_def browser_def plain_message_def)
  ultimately show ?thesis by simp
qed

lemma deleteChat_frame:
  "filter (\<lambda>c. chat_id c \<noteq> chatId) (fst (deleteChat rt st chatId)) =
   filter (\<lambda>c. chat_id c \<noteq> chatId) (loadChatsFromStorage rt st)"
  by (simp add: deleteChat_def Let_def load_without_window)

lemma deleteChat_success:
  "has_window st \<Longrightarrow> setItem_ok st \<Longrightarrow>
   deleteChat rt st chatId =
     (filter (\<lambda>c. chat_id c \<noteq> chatId) (loadChatsFromStorage rt st),
      st\<lparr>chats_slot := Stored (encode rt (filter (\<lambda>c. chat_id c \<noteq> chatId) (loadChatsFromStorage rt st)))\<rparr>)"
  by (simp add: deleteChat_def Let_def)

lemma renameChat_result:
  assumes "renameChat rt st chatId newTitle = (Some r, st')"
  shows "\<exists>index. findIndex (\<lambda>c. chat_id c = chatId) (loadChatsFromStorage rt st) = Some index \<and>
           r = (loadChatsFromStorage rt st ! index)\<lparr>title := newTitle, updatedAt := Date (Date_now rt)\<rparr> \<and>
           st' = st\<lparr>chats_slot := Stored (encode rt ((loadChatsFromStorage rt st)[index := r]))\<rparr>"
proof -
  from assms obtain index where
    idx: "findIndex (\<lambda>c. chat_id c = chatId) (loadChatsFromStorage rt st) = Some index"
    and w: "has_window st" and ok: "setItem_ok st"
    by (auto simp: renameChat_def Let_def split: if_splits option.splits)
  from idx have "index < length (loadChatsFromStorage rt st)" by (simp add: findIndex_Some)
  with assms idx w ok show ?thesis
    by (auto simp: renameChat_def Let_def)
qed

lemma renameChat_not_found:
  "fst (renameChat rt st chatId newTitle) = None \<Longrightarrow> snd (renameChat rt st chatId newTitle) = st"
  by (auto simp: renameChat_def Let_def split: if_splits option.splits)

lemma autoSaveChat_frame:
  assumes "findIndex (\<lambda>c. title c = getChatTitle msgs) (loadChatsFromStorage rt st) = Some i"
  shows "length (fst (autoSaveChat rt st msgs)) = length (loadChatsFromStorage rt st) \<and>
         (\<forall>j < length (loadChatsFromStorage rt st). j \<noteq> i \<longrightarrow>
             fst (autoSaveChat rt st msgs) ! j = loadChatsFromStorage rt st ! j)"
proof (cases "has_window st \<and> setItem_ok st \<and> filter (\<lambda>m. msg_type m = User) msgs \<noteq> []")
  case True
  then show ?thesis
    using autoSaveChat_existing [OF _ _ _ assms] by simp
next
  case False
  with assms show ?thesis
    by (auto simp: autoSaveChat_def Let_def load_without_window)
qed

text \<open>
  The list written is the list a later load returns, for records that survive the codec.
\<close>

lemma list_all_filter: "list_all P xs \<Longrightarrow> list_all P (filter Q xs)"
  by (induction xs) auto

lemma deleteChat_reload:
  assumes "has_window st" and "setItem_ok st"
    and "list_all (chat_survives rt) (loadChatsFromStorage rt st)"
  shows "loadChatsFromStorage (rt\<lparr>Date_now := later\<rparr>) (snd (deleteChat rt st chatId)) =
         filter (\<lambda>c. chat_id c \<noteq> chatId) (loadChatsFromStorage rt st)"
proof -
  let ?kept = "filter (\<lambda>c. chat_id c \<noteq> chatId) (loadChatsFromStorage rt st)"
  have "list_all shaped_chat ?kept" "list_all (chat_survives rt) ?kept"
    using load_shaped [of rt st] assms(3) by (simp_all add: list_all_filter)
  then have "decode (rt\<lparr>Date_now := later\<rparr>) (encode rt ?kept) = Inr ?kept"
    by (intro decode_encode) simp_all
  with assms(1,2) show ?thesis
    by (simp add: deleteChat_success loadChatsFromStorage_def)
qed

text \<open>
  Claim C10. Each mutation computes its list from the list it loads, and writes the list
  it computed. \<^verbatim>\<open>deleteChat\<close>: the records whose id is not the given one are those of
  the loaded list, in the same order, and when the write succeeds the result is exactly
  the loaded list without the records of that id. \<^verbatim>\<open>renameChat\<close>: when it returns a
  record, that record is the first loaded record of that id with a new \<^verbatim>\<open>title\<close> and
  \<^verbatim>\<open>updatedAt\<close> and every other field as loaded, and the list written is the loaded list
  with that one record replaced; when it returns null, storage is as it was.
  \<^verbatim>\<open>autoSaveChat\<close>, when a stored conversation has the computed title: the list keeps
  its length, and every record but the matched one is the loaded record at the same
  position.
\<close>

theorem mutations_touch_only_the_match:
  "filter (\<lambda>c. chat_id c \<noteq> chatId) (fst (deleteChat rt st chatId)) =
     filter (\<lambda>c. chat_id c \<noteq> chatId) (loadChatsFromStorage rt st) \<and>
   (has_window st \<and> setItem_ok st \<longrightarrow>
      fst (deleteChat rt st chatId) = filter (\<lambda>c. chat_id c \<noteq> chatId) (loadChatsFromStorage rt st) \<and>
      chats_slot (snd (deleteChat rt st chatId)) =
        Stored (encode rt (filter (\<lambda>c. chat_id c \<noteq> chatId) (loadChatsFromStorage rt st)))) \<and>
   (renameChat rt st chatId newTitle = (Some r, st') \<longrightarrow>
      (\<exists>index. findIndex (\<lambda>c. chat_id c = chatId) (loadChatsFromStorage rt st) = Some index \<and>
         r = (loadChatsFromStorage rt st ! index)\<lparr>title := newTitle, updatedAt := Date (Date_now rt)\<rparr> \<and>
         st' = st\<lparr>chats_slot := Stored (encode rt ((loadChatsFromStorage rt st)[index := r]))\<rparr>)) \<and>
   (fst (renameChat rt st chatId newTitle) = None \<longrightarrow> snd (renameChat rt st chatId newTitle) = st) \<and>
   (findIndex (\<lambda>c. title c = getChatTitle msgs) (loadChatsFromStorage rt st) = Some i \<longrightarrow>
      length (fst (autoSaveChat rt st msgs)) = length (loadChatsFromStorage rt st) \<and>
      (\<forall>j < length (loadChatsFromStorage rt st). j \<noteq> i \<longrightarrow>
          fst (autoSaveChat rt st msgs) ! j = loadChatsFromStorage rt st ! j))"
proof (intro conjI)
  show "filter (\<lambda>c. chat_id c \<noteq> chatId) (fst (deleteChat rt st chatId)) =
        filter (\<lambda>c. chat_id c \<noteq> chatId) (loadChatsFromStorage rt st)"
    by (rule deleteChat_frame)
  show "has_window st \<and> setItem_ok st \<longrightarrow>
      fst (deleteChat rt st chatId) = filter (\<lambda>c. chat_id c \<noteq> chatId) (loadChatsFromStorage rt st) \<and>
      chats_slot (snd (deleteChat rt st chatId)) =
        Stored (encode rt (filter (\<lambda>c. chat_id c \<noteq> chatId) (loadChatsFromStorage rt st)))"
    by (simp add: deleteChat_success)
  show "renameChat rt st chatId newTitle = (Some r, st') \<longrightarrow>
      (\<exists>index. findIndex (\<lambda>c. chat_id c = chatId) (loadChatsFromStorage rt st) = Some index \<and>
         r = (loadChatsFromStorage rt st ! index)\<lparr>title := newTitle, updatedAt := Date (Date_now rt)\<rparr> \<and>
         st' = st\<lparr>chats_slot := Stored (encode rt ((loadChatsFromStorage rt st)[index := r]))\<rparr>)"
    using renameChat_result by blast
  show "fst (renameChat rt st chatId newTitle) = None \<longrightarrow> snd (renameChat rt st chatId newTitle) = st"
    using renameChat_not_found by blast
  show "findIndex (\<lambda>c. title c = getChatTitle msgs) (loadChatsFromStorage rt st) = Some i \<longrightarrow>
      length (fst (autoSaveChat rt st msgs)) = length (loadChatsFromStorage rt st) \<and>
      (\<forall>j < length (loadChatsFromStorage rt st). j \<noteq> i \<longrightarrow>
          fst (autoSaveChat rt st msgs) ! j = loadChatsFromStorage rt st ! j)"
    using autoSaveChat_frame by blast
qed

text \<open>
  A store with the conversations on Paris and on Tokyo: the second is deleted, the first
  renamed, an unknown id renamed, and a chat titled as the second saved again.
\<close>

theorem mutations_touch_only_the_match_witness:
  "map chat_id (fst (deleteChat sample_runtime (browser (Stored (JArr [stored_paris, stored_tokyo])))
      ''local_1714557600001'')) = [''local_1714557600000''] \<and>
   fst (deleteChat sample_runtime (browser (Stored (JArr [stored_paris, stored_tokyo]))) ''local_1714557600001'') =
     [loadChatsFromStorage sample_runtime (browser (Stored (JArr [stored_paris, stored_tokyo]))) ! 0] \<and>
   chats_slot (snd (renameChat sample_runtime (browser (Stored (JArr [stored_paris, stored_tokyo])))
      ''local_1714557600000'' ''Paris trip'')) =
     Stored (encode sample_runtime
       ((loadChatsFromStorage sample_runtime (browser (Stored (JArr [stored_paris, stored_tokyo]))))
          [0 := (loadChatsFromStorage sample_runtime (browser (Stored (JArr [stored_paris, stored_tokyo]))) ! 0)
                  \<lparr>title := ''Paris trip'', updatedAt := Date 1714557660000\<rparr>])) \<and>
   snd (renameChat sample_runtime (browser (Stored (JArr [stored_paris, stored_tokyo]))) ''local_0'' ''Paris trip'') =
     browser (Stored (JArr [stored_paris, stored_tokyo])) \<and>
   fst (autoSaveChat sample_runtime (browser (Stored (JArr [stored_paris, stored_tokyo])))
      [plain_message ''20'' User ''Rain in Tokyo'']) ! 0 =
     loadChatsFromStorage sample_runtime (browser (Stored (JArr [stored_paris, stored_tokyo]))) ! 0"
proof -
  let ?st = "browser (Stored (JArr [stored_paris, stored_tokyo]))"
  let ?load = "loadChatsFromStorage sample_runtime ?st"
  let ?r = "(?load ! 0)\<lparr>title := ''Paris trip'', updatedAt := Date 1714557660000\<rparr>"
  let ?tokyo = "[plain_message ''20'' User ''Rain in Tokyo'']"
  have env: "has_window ?st \<and> setItem_ok ?st"
    by (simp add: browser_def)
  have kept: "filter (\<lambda>c. chat_id c \<noteq> ''local_1714557600001'') ?load = [?load ! 0]"
    by code_simp
  have kept_ids: "map chat_id [?load ! 0] = [''local_1714557600000'']"
    by code_simp
  have renamed: "fst (renameChat sample_runtime ?st ''local_1714557600000'' ''Paris trip'') = Some ?r"
    by code_simp
  then have pair: "renameChat sample_runtime ?st ''local_1714557600000'' ''Paris trip'' =
      (Some ?r, snd (renameChat sample_runtime ?st ''local_1714557600000'' ''Paris trip''))"
    by (simp add: prod_eq_iff)
  have first: "findIndex (\<lambda>c. chat_id c = ''local_1714557600000'') ?load = Some 0"
    by code_simp
  have unknown: "fst (renameChat sample_runtime ?st ''local_0'' ''Paris trip'') = None"
    by code_simp
  have titled: "findIndex (\<lambda>c. title c = getChatTitle ?tokyo) ?load = Some 1"
    by code_simp
  have two: "length ?load = 2"
    by code_simp
  note del = mutations_touch_only_the_match
      [of "''local_1714557600001''" sample_runtime ?st "''Paris trip''" ?r ?st ?tokyo 1]
  note ren = mutations_touch_only_the_match
      [of "''local_1714557600000''" sample_runtime ?st "''Paris trip''" ?r
          "snd (renameChat sample_runtime ?st ''local_1714557600000'' ''Paris trip'')" ?tokyo 1]
  note unk = mutations_touch_only_the_match
      [of "''local_0''" sample_runtime ?st "''Paris trip''" ?r ?st ?tokyo 1]
  from del env kept have d: "fst (deleteChat sample_runtime ?st ''local_1714557600001'') = [?load ! 0]"
    by simp
  from ren pair obtain index where
    "findIndex (\<lambda>c. chat_id c = ''local_1714557600000'') ?load = Some index"
    "snd (renameChat sample_runtime ?st ''local_1714557600000'' ''Paris trip'') =
       ?st\<lparr>chats_slot := Stored (encode sample_runtime (?load[index := ?r]))\<rparr>"
    by blast
  with first have w: "chats_slot (snd (renameChat sample_runtime ?st ''local_1714557600000'' ''Paris trip'')) =
       Stored (encode sample_runtime (?load[0 := ?r]))"
    by simp
  from unk unknown have n: "snd (renameChat sample_runtime ?st ''local_0'' ''Paris trip'') = ?st"
    by blast
  from del titled two have a: "fst (autoSaveChat sample_runtime ?st ?tokyo) ! 0 = ?load ! 0"
    by simp
  from d kept_ids w n a show ?thesis
    by simp
qed

end
